theory Spec2Isabelle
  imports Complex_Main "HOL-Library.Signed_Division"
begin

section \<open>Go values used by api-tester.go\<close>

text \<open>
  Go's \<open>int\<close> (64 bit on the platforms the tool targets) is modelled as \<open>int\<close>; the
  places where a result can leave the 64-bit range are written with \<open>wrap64\<close>.
  \<open>time.Duration\<close> is an \<open>int\<close> counting nanoseconds. An \<open>error\<close> is its message.
\<close>

type_synonym error = string
type_synonym duration = int

definition wrap64 :: "int \<Rightarrow> int" where
  "wrap64 x = signed_take_bit 63 x"

definition Millisecond :: duration where
  "Millisecond = 1000000"

datatype panic = IntegerDivideByZero | IndexOutOfRange | NilPointerDereference

text \<open>
  Integer division and remainder of Go: a zero divisor panics, the quotient truncates
  towards zero and the remainder takes the sign of the dividend.
\<close>

definition int_quo :: "int \<Rightarrow> int \<Rightarrow> panic + int" where
  "int_quo a b = (if b = 0 then Inl IntegerDivideByZero else Inr (wrap64 (a sdiv b)))"

definition int_rem :: "int \<Rightarrow> int \<Rightarrow> panic + int" where
  "int_rem a b = (if b = 0 then Inl IntegerDivideByZero else Inr (a smod b))"

section \<open>The coordinator's partition (main, lines 188-200)\<close>

text \<open>
  The launch loop \<open>for i := 0; i < numThreads; i++\<close>: worker \<open>i\<close> is started with
  \<open>numCalls = callsPerGoroutine\<close>, incremented when \<open>i < remainderCalls\<close>. The function
  returns the pairs (threadID, numCalls) in launch order. The counter \<open>i\<close> stays below
  \<open>numThreads\<close>, so \<open>i++\<close> cannot overflow; \<open>numCalls++\<close> is written with its wrap-around.
\<close>

function launch :: "int \<Rightarrow> int \<Rightarrow> int \<Rightarrow> int \<Rightarrow> (int \<times> int) list" where
  "launch numThreads callsPerGoroutine remainderCalls i =
     (if i < numThreads
      then (i, (if i < remainderCalls then wrap64 (callsPerGoroutine + 1)
                else callsPerGoroutine))
             # launch numThreads callsPerGoroutine remainderCalls (i + 1)
      else [])"
  by pat_completeness auto
termination
  by (relation "measure (\<lambda>(n, c, r, i). nat (n - i))") auto

declare launch.simps [simp del]

definition assignments :: "int \<Rightarrow> int \<Rightarrow> panic + (int \<times> int) list" where
  "assignments totalCalls numThreads =
     (case int_quo totalCalls numThreads of
        Inl p \<Rightarrow> Inl p
      | Inr callsPerGoroutine \<Rightarrow>
          (case int_rem totalCalls numThreads of
             Inl p \<Rightarrow> Inl p
           | Inr remainderCalls \<Rightarrow>
               Inr (launch numThreads callsPerGoroutine remainderCalls 0)))"

section \<open>float64\<close>

text \<open>
  A \<open>float64\<close> is a finite real, an infinity or NaN. The rounding of a finite result to
  the nearest representable value is the parameter \<open>rnd\<close> of the operations. Signed
  zeros are not told apart: every divisor of the program is the conversion of an
  integer or a sum of such conversions, so a zero divisor is +0.
\<close>

datatype float64 = Finite real | PInf | NInf | NaN

definition float64_of_int :: "(real \<Rightarrow> float64) \<Rightarrow> int \<Rightarrow> float64" where
  \<comment> \<open>integers of magnitude up to \<open>2 ^ 53\<close> are represented exactly\<close>
  "float64_of_int rnd n =
     (if \<bar>n\<bar> \<le> 2 ^ 53 then Finite (of_int n) else rnd (of_int n))"

fun fadd :: "(real \<Rightarrow> float64) \<Rightarrow> float64 \<Rightarrow> float64 \<Rightarrow> float64" where
  "fadd rnd NaN y = NaN"
| "fadd rnd x NaN = NaN"
| "fadd rnd (Finite x) (Finite y) = rnd (x + y)"
| "fadd rnd PInf NInf = NaN"
| "fadd rnd NInf PInf = NaN"
| "fadd rnd PInf y = PInf"
| "fadd rnd NInf y = NInf"
| "fadd rnd (Finite x) y = y"

fun fdiv :: "(real \<Rightarrow> float64) \<Rightarrow> float64 \<Rightarrow> float64 \<Rightarrow> float64" where
  "fdiv rnd NaN y = NaN"
| "fdiv rnd x NaN = NaN"
| "fdiv rnd (Finite x) (Finite y) =
     (if y = 0 then (if x = 0 then NaN else if 0 < x then PInf else NInf)
      else rnd (x / y))"
| "fdiv rnd (Finite x) y = Finite 0"
| "fdiv rnd PInf (Finite y) = (if 0 \<le> y then PInf else NInf)"
| "fdiv rnd NInf (Finite y) = (if 0 \<le> y then NInf else PInf)"
| "fdiv rnd x y = NaN"

section \<open>The library and the environment\<close>

record request =
  req_method :: string
  req_url :: string
  req_header :: "(string \<times> string list) list"

text \<open>
  An \<open>http.Response\<close> as far as the worker looks at it: its status line, and the
  errors that reading its body to the end and closing it will return.
\<close>

record response =
  resp_status :: string
  copy_err :: "error option"
  close_err :: "error option"

text \<open>
  What one \<open>httpClient.Do\<close> gives back, with the elapsed time the worker measures
  around it (\<open>endTime.Sub(startTime).Seconds() * 1000\<close>).
\<close>

record call_result =
  do_resp :: "response option"
  do_err :: "error option"
  responseTime :: float64

text \<open>
  The behaviour of the Go library and of the network is a parameter of the model:
  which URLs \<open>net/url\<close> rejects, \<open>strconv.Atoi\<close>, \<open>time.ParseDuration\<close>, the outcome of
  call \<open>i\<close> of thread \<open>t\<close>, the rounding of float64 and the wall-clock time of the run
  in seconds (\<open>endTime.Sub(startTime).Seconds()\<close>).
\<close>

record golib =
  url_parse_error :: "string \<Rightarrow> error option"
  Atoi :: "string \<Rightarrow> error + int"
  ParseDuration :: "string \<Rightarrow> error + duration"
  Do :: "int \<Rightarrow> nat \<Rightarrow> call_result"
  rnd :: "real \<Rightarrow> float64"
  totalTime :: float64

definition NewRequest :: "golib \<Rightarrow> string \<Rightarrow> string \<Rightarrow> error + request" where
  \<comment> \<open>\<open>http.NewRequest(method, url, nil)\<close> with a valid method: fails when the URL does
      not parse, otherwise a request with an empty header\<close>
  "NewRequest lib m u =
     (case url_parse_error lib u of
        Some e \<Rightarrow> Inl e
      | None \<Rightarrow> Inr \<lparr>req_method = m, req_url = u, req_header = []\<rparr>)"

definition Header_Add :: "string \<Rightarrow> string \<Rightarrow> request \<Rightarrow> request" where
  \<comment> \<open>\<open>request.Header.Add(key, value)\<close> for a key in canonical form\<close>
  "Header_Add k v r =
     (let h = req_header r
      in r\<lparr>req_header :=
             (case map_of h k of
                None \<Rightarrow> h @ [(k, [v])]
              | Some vs \<Rightarrow> map (\<lambda>(k', vs'). if k' = k then (k', vs' @ [v]) else (k', vs')) h)\<rparr>)"

definition HasPrefix :: "string \<Rightarrow> string \<Rightarrow> bool" where
  "HasPrefix s p = (take (length p) s = p)"

definition ToLower :: "string \<Rightarrow> string" where
  \<comment> \<open>on the ASCII letters, which is all the prefix test after it looks at\<close>
  "ToLower s =
     map (\<lambda>c. if (65::nat) \<le> of_char c \<and> (of_char c :: nat) \<le> 90
              then char_of (of_char c + (32::nat)) else c) s"

section \<open>What the program writes\<close>

text \<open>
  One constructor per \<open>Printf\<close>/\<open>Println\<close> of the program, holding the values that are
  formatted; \<open>printHelp\<close> is one entry.
\<close>

datatype out_line =
    ErrNoArgument
  | ErrNotValidURL string
  | ErrNotValidInteger string
  | Help
  | RequestCreationFailed int error
  | RequestFailed int nat error float64
  | Success int nat string float64
  | TotalTestTime float64
  | AverageResponseTime float64
  | AverageRequestsPerSecond float64
  | AllThreadsFinished

section \<open>Configuration and argument parsing (main, lines 80-174)\<close>

record config =
  url :: string
  totalCalls :: int
  numThreads :: int
  sleepTime :: duration
  requestTimeOut :: duration
  connectTimeOut :: duration
  reuseConnects :: bool
  keepConnectsOpen :: bool

text \<open>How \<open>main\<close> ends before the workers start: it returns after printing, or it panics.\<close>

datatype stop = Return "out_line list" | Panic panic

definition defaults :: config where
  "defaults =
     (let requestTimeOut = 10000 * Millisecond;
          connectTimeOut = wrap64 (requestTimeOut * 3)
      in \<lparr>url = [], totalCalls = 10000, numThreads = 12, sleepTime = 0 * Millisecond,
          requestTimeOut = requestTimeOut, connectTimeOut = connectTimeOut,
          reuseConnects = False, keepConnectsOpen = False\<rparr>)"

text \<open>
  The defaults that \<open>printHelp\<close> announces (lines 21-25), as a configuration.
\<close>

definition help_defaults :: config where
  "help_defaults =
     \<lparr>url = [], totalCalls = 10000, numThreads = 12, sleepTime = 0 * Millisecond,
      requestTimeOut = 10000 * Millisecond, connectTimeOut = 20000 * Millisecond,
      reuseConnects = False, keepConnectsOpen = False\<rparr>"

text \<open>
  The loop \<open>for i := 2; i < len(os.Args); i++\<close>. A flag with a value increments \<open>i\<close> and
  reads \<open>os.Args[i]\<close>, which panics when the flag is the last argument.
\<close>

function parse_flags :: "golib \<Rightarrow> string list \<Rightarrow> nat \<Rightarrow> config \<Rightarrow> stop + config" where
  "parse_flags lib args i c =
     (if i < length args then
        (if args ! i = ''-totalCalls'' then
           (if i + 1 < length args then
              (case Atoi lib (args ! (i + 1)) of
                 Inl argErr \<Rightarrow> Inl (Return [ErrNotValidInteger (args ! (i + 1)), Help])
               | Inr v \<Rightarrow> parse_flags lib args (i + 2) (c\<lparr>totalCalls := v\<rparr>))
            else Inl (Panic IndexOutOfRange))
         else if args ! i = ''-numThreads'' then
           (if i + 1 < length args then
              (case Atoi lib (args ! (i + 1)) of
                 Inl argErr \<Rightarrow> Inl (Return [ErrNotValidInteger (args ! (i + 1)), Help])
               | Inr v \<Rightarrow> parse_flags lib args (i + 2) (c\<lparr>numThreads := v\<rparr>))
            else Inl (Panic IndexOutOfRange))
         else if args ! i = ''-sleepTime'' then
           (if i + 1 < length args then
              (case ParseDuration lib (args ! (i + 1) @ ''ms'') of
                 Inl argErr \<Rightarrow> Inl (Return [ErrNotValidInteger (args ! (i + 1)), Help])
               | Inr v \<Rightarrow> parse_flags lib args (i + 2) (c\<lparr>sleepTime := v\<rparr>))
            else Inl (Panic IndexOutOfRange))
         else if args ! i = ''-requestTimeOut'' then
           (if i + 1 < length args then
              (case ParseDuration lib (args ! (i + 1) @ ''ms'') of
                 Inl argErr \<Rightarrow> Inl (Return [ErrNotValidInteger (args ! (i + 1)), Help])
               | Inr v \<Rightarrow> parse_flags lib args (i + 2) (c\<lparr>requestTimeOut := v\<rparr>))
            else Inl (Panic IndexOutOfRange))
         else if args ! i = ''-connectTimeOut'' then
           (if i + 1 < length args then
              (case ParseDuration lib (args ! (i + 1) @ ''ms'') of
                 Inl argErr \<Rightarrow> Inl (Return [ErrNotValidInteger (args ! (i + 1)), Help])
               | Inr v \<Rightarrow> parse_flags lib args (i + 2) (c\<lparr>connectTimeOut := v\<rparr>))
            else Inl (Panic IndexOutOfRange))
         else if args ! i = ''-reuseConnects'' then
           parse_flags lib args (i + 1) (c\<lparr>reuseConnects := True\<rparr>)
         else if args ! i = ''-keepConnectsOpen'' then
           parse_flags lib args (i + 1) (c\<lparr>keepConnectsOpen := True\<rparr>)
         else parse_flags lib args (i + 1) c)
      else Inr c)"
  by pat_completeness auto
termination
  by (relation "measure (\<lambda>(lib, args, i, c). length args - i)") auto

declare parse_flags.simps [simp del]

definition main_parse :: "golib \<Rightarrow> string list \<Rightarrow> stop + config" where
  "main_parse lib args =
     (if length args < 2 then Inl (Return [ErrNoArgument, Help])
      else if list_ex (\<lambda>arg. arg = ''-?'' \<or> arg = ''--help'') (tl args) then Inl (Return [Help])
      else if HasPrefix (args ! 1) ''http''
        then parse_flags lib args 2 (defaults\<lparr>url := args ! 1\<rparr>)
        else Inl (Return [ErrNotValidURL (url defaults), Help]))"

section \<open>The HTTP client (main, lines 176-186)\<close>

record transport =
  MaxIdleConns :: int
  IdleConnTimeout :: duration
  DisableCompression :: bool
  DisableKeepAlives :: bool
  InsecureSkipVerify :: bool

record client =
  Transport :: transport
  Timeout :: duration

definition new_client :: "config \<Rightarrow> client" where
  "new_client c =
     (let tr = \<lparr>MaxIdleConns = wrap64 (numThreads c * 10),
                IdleConnTimeout = connectTimeOut c,
                DisableCompression = True,
                DisableKeepAlives = (\<not> reuseConnects c),
                InsecureSkipVerify = HasPrefix (ToLower (url c)) ''https''\<rparr>
      in \<lparr>Transport = tr, Timeout = requestTimeOut c\<rparr>)"

section \<open>The worker (fetchData, lines 33-78)\<close>

text \<open>
  What a worker does, in order: the calls it makes on the client, on a response body, on
  the mutex and the wait group, what it prints and what it appends.
\<close>

datatype effect =
    HttpDo request nat
  | CopyDiscard nat
  | BodyClose nat
  | Lock
  | Print out_line
  | Append float64
  | Unlock
  | Sleep duration
  | WgDone

text \<open>
  Where a worker stands: before the request template is built, in the loop with the
  template, the variable \<open>status\<close> and the index \<open>i\<close> (which starts at 0 and only
  counts up while below \<open>numCalls\<close>), or returned.
\<close>

datatype pc = Start | Loop request string nat | Exited

record worker =
  threadID :: int
  numCalls :: int
  pc :: pc
  effects :: "effect list"

text \<open>
  One pass through the loop body for call \<open>i\<close>: the new \<open>status\<close>, the effects in
  order, the line printed and the time appended under the lock. When the body is read,
  \<open>err\<close> is assigned the result of the copy and then that of the close, so the line
  printed depends on the close alone; otherwise \<open>err\<close> is what \<open>Do\<close> returned.
\<close>

definition iteration ::
  "golib \<Rightarrow> config \<Rightarrow> int \<Rightarrow> request \<Rightarrow> string \<Rightarrow> nat \<Rightarrow> string \<times> effect list \<times> out_line \<times> float64" where
  "iteration lib c tid req status i =
     (let r = Do lib tid i;
          status' = (case do_resp r of Some resp \<Rightarrow> resp_status resp | None \<Rightarrow> status);
          body = (case do_resp r of
                    Some resp \<Rightarrow> if \<not> keepConnectsOpen c then [CopyDiscard i, BodyClose i] else []
                  | None \<Rightarrow> []);
          err = (case do_resp r of
                   Some resp \<Rightarrow> if \<not> keepConnectsOpen c then close_err resp else do_err r
                 | None \<Rightarrow> do_err r);
          line = (case err of
                    Some e \<Rightarrow> RequestFailed tid i e (responseTime r)
                  | None \<Rightarrow> Success tid i status' (responseTime r))
      in (status',
          [HttpDo req i] @ body @
            [Lock, Print line, Append (responseTime r), Unlock, Sleep (sleepTime c)],
          line, responseTime r))"

text \<open>
  One step of a worker: the worker after it, the lines printed, the times appended to
  the shared sequence and the panic, if the step ends in one. When \<open>http.NewRequest\<close>
  fails the error is printed and \<open>request\<close> is nil; the next statement reads
  \<open>request.Header\<close>.
\<close>

definition fetchData_step ::
  "golib \<Rightarrow> config \<Rightarrow> worker \<Rightarrow> worker \<times> out_line list \<times> float64 list \<times> panic option" where
  "fetchData_step lib c w =
     (case pc w of
        Start \<Rightarrow>
          (case NewRequest lib ''GET'' (url c) of
             Inl err \<Rightarrow>
               (w\<lparr>effects := effects w @ [Print (RequestCreationFailed (threadID w) err)]\<rparr>,
                [RequestCreationFailed (threadID w) err], [], Some NilPointerDereference)
           | Inr request \<Rightarrow>
               (w\<lparr>pc := Loop (Header_Add ''Connection''
                                (if reuseConnects c then ''keep-alive'' else ''close'') request)
                              [] 0\<rparr>,
                [], [], None))
      | Loop request status i \<Rightarrow>
          (if int i < numCalls w then
             (case iteration lib c (threadID w) request status i of
                (status', effs, line, rt) \<Rightarrow>
                  (w\<lparr>pc := Loop request status' (i + 1), effects := effects w @ effs\<rparr>,
                   [line], [rt], None))
           else (w\<lparr>pc := Exited, effects := effects w @ [WgDone]\<rparr>, [], [], None))
      | Exited \<Rightarrow> (w, [], [], None))"

section \<open>The run: workers interleaved under a schedule\<close>

text \<open>
  The shared state of a run. A schedule is the list of the workers' indices in the order
  in which they take their steps; the section under the mutex makes the print and the
  append of one call a single step. A panic in any goroutine ends the process.
\<close>

record system =
  workers :: "worker list"
  responseTimes :: "float64 list"
  stdout :: "out_line list"
  crashed :: "panic option"

definition sched_step :: "golib \<Rightarrow> config \<Rightarrow> system \<Rightarrow> nat \<Rightarrow> system" where
  "sched_step lib c s k =
     (if crashed s \<noteq> None \<or> length (workers s) \<le> k then s
      else (case fetchData_step lib c (workers s ! k) of
              (w', out, rts, p) \<Rightarrow>
                s\<lparr>workers := (workers s)[k := w'],
                  responseTimes := responseTimes s @ rts,
                  stdout := stdout s @ out,
                  crashed := p\<rparr>))"

definition exec :: "golib \<Rightarrow> config \<Rightarrow> nat list \<Rightarrow> system \<Rightarrow> system" where
  "exec lib c sched s = foldl (sched_step lib c) s sched"

definition joined :: "system \<Rightarrow> bool" where
  \<comment> \<open>\<open>wg.Wait()\<close> returns: every worker has called \<open>wg.Done()\<close>\<close>
  "joined s = list_all (\<lambda>w. case pc w of Exited \<Rightarrow> True | _ \<Rightarrow> False) (workers s)"

section \<open>main\<close>

definition launched :: "(int \<times> int) list \<Rightarrow> system" where
  \<comment> \<open>the run when the launch loop has started one goroutine per assignment\<close>
  "launched asg =
     \<lparr>workers = map (\<lambda>(t, n). \<lparr>threadID = t, numCalls = n, pc = Start, effects = []\<rparr>) asg,
      responseTimes = [], stdout = [], crashed = None\<rparr>"

definition main_start :: "golib \<Rightarrow> string list \<Rightarrow> stop + config \<times> client \<times> system" where
  "main_start lib args =
     (case main_parse lib args of
        Inl st \<Rightarrow> Inl st
      | Inr c \<Rightarrow>
          (let cl = new_client c in
           (case assignments (totalCalls c) (numThreads c) of
              Inl p \<Rightarrow> Inl (Panic p)
            | Inr asg \<Rightarrow>
                Inr (c, cl, launched asg))))"

text \<open>The statistics and the summary lines (lines 206-226).\<close>

definition averageResponseTime :: "golib \<Rightarrow> float64 list \<Rightarrow> float64" where
  "averageResponseTime lib rts =
     (let totalResponseTime = foldl (fadd (rnd lib)) (Finite 0) rts
      in fdiv (rnd lib) totalResponseTime (float64_of_int (rnd lib) (int (length rts))))"

definition requestsPerSecond :: "golib \<Rightarrow> config \<Rightarrow> float64" where
  "requestsPerSecond lib c =
     fdiv (rnd lib) (float64_of_int (rnd lib) (totalCalls c)) (totalTime lib)"

definition report :: "golib \<Rightarrow> config \<Rightarrow> float64 list \<Rightarrow> out_line list" where
  "report lib c rts =
     [TotalTestTime (totalTime lib),
      AverageResponseTime (averageResponseTime lib rts),
      AverageRequestsPerSecond (requestsPerSecond lib c),
      AllThreadsFinished]"

text \<open>
  The whole program under a schedule: it returns with its output, it panics with the
  output so far, or the schedule ends with \<open>main\<close> still blocked in \<open>wg.Wait()\<close>.
\<close>

datatype outcome = Returns "out_line list" | Panics panic "out_line list" | Waits

definition main :: "golib \<Rightarrow> nat list \<Rightarrow> string list \<Rightarrow> outcome" where
  "main lib sched args =
     (case main_start lib args of
        Inl (Return out) \<Rightarrow> Returns out
      | Inl (Panic p) \<Rightarrow> Panics p []
      | Inr (c, cl, s0) \<Rightarrow>
          (let s = exec lib c sched s0 in
           (case crashed s of
              Some p \<Rightarrow> Panics p (stdout s)
            | None \<Rightarrow>
                if joined s then Returns (stdout s @ report lib c (responseTimes s))
                else Waits)))"

section \<open>A concrete environment\<close>

text \<open>
  A small instance of the library for evaluating the program: decimal integers,
  durations written as whole milliseconds, one URL that does not parse, calls that
  succeed at even indices and are refused at odd ones, exact arithmetic.
\<close>

fun digits_value :: "string \<Rightarrow> nat option" where
  "digits_value [] = Some 0"
| "digits_value (ch # cs) =
     (if (48::nat) \<le> of_char ch \<and> (of_char ch :: nat) \<le> 57
      then map_option (\<lambda>v. (of_char ch - 48) * 10 ^ length cs + v) (digits_value cs)
      else None)"

definition sample_Atoi :: "string \<Rightarrow> error + int" where
  "sample_Atoi s =
     (case s of
        [] \<Rightarrow> Inl ''invalid syntax''
      | ch # cs \<Rightarrow>
          if ch = CHR ''-'' \<and> cs \<noteq> [] then
            (case digits_value cs of None \<Rightarrow> Inl ''invalid syntax'' | Some v \<Rightarrow> Inr (- int v))
          else (case digits_value s of None \<Rightarrow> Inl ''invalid syntax'' | Some v \<Rightarrow> Inr (int v)))"

definition sample_ParseDuration :: "string \<Rightarrow> error + duration" where
  "sample_ParseDuration s =
     (if 2 < length s \<and> drop (length s - 2) s = ''ms'' then
        (case digits_value (take (length s - 2) s) of
           None \<Rightarrow> Inl ''invalid duration''
         | Some v \<Rightarrow> Inr (int v * Millisecond))
      else Inl ''invalid duration'')"

definition sample_Do :: "int \<Rightarrow> nat \<Rightarrow> call_result" where
  "sample_Do t i =
     (if even i
      then \<lparr>do_resp = Some \<lparr>resp_status = ''200 OK'', copy_err = None, close_err = None\<rparr>,
            do_err = None, responseTime = Finite 5\<rparr>
      else \<lparr>do_resp = None, do_err = Some ''connection refused'', responseTime = Finite 2\<rparr>)"

definition sample_lib :: golib where
  "sample_lib =
     \<lparr>url_parse_error = (\<lambda>u. if u = ''http://[::1'' then Some ''missing ] in host'' else None),
      Atoi = sample_Atoi,
      ParseDuration = sample_ParseDuration,
      Do = sample_Do,
      rnd = Finite,
      totalTime = Finite 2\<rparr>"

text \<open>A run of three calls on two threads in this environment.\<close>

definition sample_args :: "string list" where
  "sample_args = [''api-tester'', ''http://h'', ''-totalCalls'', ''3'', ''-numThreads'', ''2'']"

definition sample_config :: config where
  "sample_config = defaults\<lparr>url := ''http://h'', totalCalls := 3, numThreads := 2\<rparr>"

text \<open>
  Further command lines: no calls at all, a URL that does not parse, zero threads, and
  a request timeout of 500 ms with no connect timeout given.
\<close>

definition idle_args :: "string list" where
  "idle_args = [''api-tester'', ''http://h'', ''-totalCalls'', ''0'', ''-numThreads'', ''1'']"

definition idle_config :: config where
  "idle_config = defaults\<lparr>url := ''http://h'', totalCalls := 0, numThreads := 1\<rparr>"

definition bad_url_args :: "string list" where
  "bad_url_args = [''api-tester'', ''http://[::1'', ''-totalCalls'', ''1'', ''-numThreads'', ''1'']"

definition bad_url_config :: config where
  "bad_url_config = defaults\<lparr>url := ''http://[::1'', totalCalls := 1, numThreads := 1\<rparr>"

definition no_thread_args :: "string list" where
  "no_thread_args = [''api-tester'', ''http://h'', ''-numThreads'', ''0'']"

definition timeout_args :: "string list" where
  "timeout_args = [''api-tester'', ''http://h'', ''-requestTimeOut'', ''500'']"

definition no_thread_config :: config where
  "no_thread_config = defaults\<lparr>url := ''http://h'', numThreads := 0\<rparr>"

definition timeout_config :: config where
  "timeout_config = defaults\<lparr>url := ''http://h'', requestTimeOut := 500 * Millisecond\<rparr>"

text \<open>
  The three-call run after the schedule 0, 1, 0: worker 0 has made its first call and
  is about to make its second, which will be refused. Its request template.
\<close>

definition sample_state :: system where
  "sample_state = exec sample_lib sample_config [0, 1, 0] (launched [(0, 2), (1, 1)])"

definition sample_request :: request where
  "sample_request =
     \<lparr>req_method = ''GET'', req_url = ''http://h'', req_header = [(''Connection'', [''close''])]\<rparr>"

text \<open>
  A run of one call on one thread, and an environment in which every call gets its
  response headers and then the body stalls until the request timeout: \<open>Do\<close> returns the
  response, reading the body fails, closing it succeeds. The state of that run when the
  worker is about to make its call.
\<close>

definition one_call_args :: "string list" where
  "one_call_args = [''api-tester'', ''http://h'', ''-totalCalls'', ''1'', ''-numThreads'', ''1'']"

definition one_call_config :: config where
  "one_call_config = defaults\<lparr>url := ''http://h'', totalCalls := 1, numThreads := 1\<rparr>"

definition stalled_Do :: "int \<Rightarrow> nat \<Rightarrow> call_result" where
  "stalled_Do t i =
     \<lparr>do_resp = Some \<lparr>resp_status = ''200 OK'',
                        copy_err = Some ''context deadline exceeded'',
                        close_err = None\<rparr>,
      do_err = None, responseTime = Finite 100\<rparr>"

definition stalled_lib :: golib where
  "stalled_lib = sample_lib\<lparr>Do := stalled_Do\<rparr>"

definition stalled_state :: system where
  "stalled_state = exec stalled_lib one_call_config [0] (launched [(0, 1)])"

section \<open>Describing a worker's history\<close>

text \<open>
  The request template a worker uses when \<open>http.NewRequest\<close> succeeds: the new request
  with the \<open>Connection\<close> header added.
\<close>

definition template :: "golib \<Rightarrow> config \<Rightarrow> request option" where
  "template lib c =
     (case NewRequest lib ''GET'' (url c) of
        Inl err \<Rightarrow> None
      | Inr request \<Rightarrow>
          Some (Header_Add ''Connection''
                  (if reuseConnects c then ''keep-alive'' else ''close'') request))"

text \<open>
  The value of the variable \<open>status\<close> when call \<open>i\<close> of thread \<open>tid\<close> begins: the status of
  the latest earlier call that had a response.
\<close>

fun status_before :: "golib \<Rightarrow> int \<Rightarrow> nat \<Rightarrow> string" where
  "status_before lib tid 0 = []"
| "status_before lib tid (Suc i) =
     (case do_resp (Do lib tid i) of
        Some resp \<Rightarrow> resp_status resp
      | None \<Rightarrow> status_before lib tid i)"

definition call_effects :: "golib \<Rightarrow> config \<Rightarrow> int \<Rightarrow> request \<Rightarrow> nat \<Rightarrow> effect list" where
  "call_effects lib c tid req i = fst (snd (iteration lib c tid req (status_before lib tid i) i))"

definition appends :: "effect list \<Rightarrow> float64 list" where
  "appends effs = concat (map (\<lambda>e. case e of Append rt \<Rightarrow> [rt] | _ \<Rightarrow> []) effs)"

text \<open>
  The indices of the calls a history makes with \<open>httpClient.Do\<close>, and of those whose
  body it reads to the end and closes, in order.
\<close>

definition attempts :: "effect list \<Rightarrow> nat list" where
  "attempts effs = concat (map (\<lambda>e. case e of HttpDo req i \<Rightarrow> [i] | _ \<Rightarrow> []) effs)"

definition copies :: "effect list \<Rightarrow> nat list" where
  "copies effs = concat (map (\<lambda>e. case e of CopyDiscard i \<Rightarrow> [i] | _ \<Rightarrow> []) effs)"

definition closes :: "effect list \<Rightarrow> nat list" where
  "closes effs = concat (map (\<lambda>e. case e of BodyClose i \<Rightarrow> [i] | _ \<Rightarrow> []) effs)"

text \<open>The number of calls a worker has completed.\<close>

definition completed :: "worker \<Rightarrow> nat" where
  "completed w = (case pc w of Start \<Rightarrow> 0 | Loop req status i \<Rightarrow> i | Exited \<Rightarrow> nat (numCalls w))"

text \<open>
  The history of the worker launched with \<open>(tid, n)\<close>, while no goroutine has panicked:
  it keeps its arguments; in the loop it holds the template, has made calls
  \<open>0 .. i - 1\<close> in order and nothing else, with \<open>i\<close> at most \<open>n\<close>; returned, it has made
  calls \<open>0 .. n - 1\<close> and signalled the wait group.
\<close>

definition worker_ok :: "golib \<Rightarrow> config \<Rightarrow> int \<times> int \<Rightarrow> worker \<Rightarrow> bool" where
  "worker_ok lib c a w =
     (threadID w = fst a \<and> numCalls w = snd a \<and>
      (case pc w of
         Start \<Rightarrow> effects w = []
       | Loop req status i \<Rightarrow>
           template lib c = Some req \<and> int i \<le> max 0 (snd a) \<and>
           status = status_before lib (fst a) i \<and>
           effects w = concat (map (call_effects lib c (fst a) req) [0..<i])
       | Exited \<Rightarrow>
           (case template lib c of
              None \<Rightarrow> False
            | Some req \<Rightarrow>
                effects w = concat (map (call_effects lib c (fst a) req) [0..<nat (snd a)]) @ [WgDone])))"

definition run_ok :: "golib \<Rightarrow> config \<Rightarrow> (int \<times> int) list \<Rightarrow> system \<Rightarrow> bool" where
  "run_ok lib c asg s =
     (length (workers s) = length asg \<and>
      list_all2 (worker_ok lib c) asg (workers s) \<and>
      length (responseTimes s) = sum_list (map completed (workers s)))"

text \<open>The steps a worker still has to take before it has returned.\<close>

definition steps_left :: "worker \<Rightarrow> nat" where
  "steps_left w =
     (case pc w of
        Start \<Rightarrow> nat (numCalls w) + 2
      | Loop req status i \<Rightarrow> nat (numCalls w) - i + 1
      | Exited \<Rightarrow> 0)"

section \<open>The partition\<close>

lemma wrap64_id: "- (2 ^ 63) \<le> x \<Longrightarrow> x < 2 ^ 63 \<Longrightarrow> wrap64 x = x"
  unfolding wrap64_def by (rule signed_take_bit_int_eq_self) simp_all

lemma launch_upto:
  assumes "0 \<le> i" and "r \<le> 0 \<or> wrap64 (c + 1) = c + 1"
  shows "launch n c r i = map (\<lambda>j. (j, if j < r then c + 1 else c)) [i..n - 1]"
  using assms
proof (induction n c r i rule: launch.induct)
  case (1 n c r i)
  show ?case
  proof (cases "i < n")
    case True
    then have "[i..n - 1] = i # [i + 1..n - 1]" by (simp add: upto_rec1)
    moreover have "launch n c r (i + 1) = map (\<lambda>j. (j, if j < r then c + 1 else c)) [i + 1..n - 1]"
      using True 1 by simp
    moreover have "i < r \<Longrightarrow> wrap64 (c + 1) = c + 1"
      using "1.prems" by auto
    ultimately show ?thesis using True by (subst launch.simps) simp
  next
    case False
    then show ?thesis by (subst launch.simps) simp
  qed
qed

lemma sum_counts:
  assumes "0 \<le> r" and "i \<le> n"
  shows "sum_list (map snd (map (\<lambda>j. (j, if j < r then c + 1 else c)) [i..n - 1])) =
           (n - i) * c + max 0 (min r n - i)"
  using assms
proof (induction "nat (n - i)" arbitrary: i)
  case 0
  then have "i = n" by simp
  then show ?case by simp
next
  case (Suc m)
  then have lt: "i < n" by linarith
  then have u: "[i..n - 1] = i # [i + 1..n - 1]" by (simp add: upto_rec1)
  from Suc.hyps(2) lt have "m = nat (n - (i + 1))" by linarith
  from Suc.hyps(1) [OF this Suc.prems(1)] lt
  have IH: "sum_list (map snd (map (\<lambda>j. (j, if j < r then c + 1 else c)) [i + 1..n - 1])) =
           (n - (i + 1)) * c + max 0 (min r n - (i + 1))"
    by simp
  show ?case using lt IH by (simp only: u) (auto simp: algebra_simps)
qed

lemma count_no_wrap:
  fixes tc n :: int
  assumes "0 \<le> tc" and "1 \<le> n" and "tc < 2 ^ 63"
  shows "tc mod n \<le> 0 \<or> wrap64 (tc div n + 1) = tc div n + 1"
proof (cases "tc mod n \<le> 0")
  case True
  then show ?thesis by simp
next
  case False
  have "0 \<le> tc div n" using assms by (simp add: pos_imp_zdiv_nonneg_iff)
  moreover have "tc div n * 1 \<le> tc div n * n"
    using assms(2) \<open>0 \<le> tc div n\<close> by (intro mult_left_mono) simp_all
  moreover have "tc div n * n + tc mod n = tc" by simp
  ultimately have "0 \<le> tc div n + 1" and "tc div n + 1 \<le> tc"
    using False by linarith+
  with assms(3) have "wrap64 (tc div n + 1) = tc div n + 1"
    by (intro wrap64_id) linarith+
  then show ?thesis by simp
qed

lemma go_quo_rem:
  assumes "0 \<le> a" "1 \<le> b" "a < 2 ^ 63"
  shows "int_quo a b = Inr (a div b)" "int_rem a b = Inr (a mod b)"
proof -
  have s: "a sdiv b = a div b" "a smod b = a mod b"
    using assms by (simp_all add: signed_divide_int_def signed_modulo_int_def sgn_if)
  have "0 \<le> a div b" using assms by (simp add: pos_imp_zdiv_nonneg_iff)
  moreover have "a div b \<le> a" using assms using zdiv_mono2[of a 1 b] by simp
  ultimately have "wrap64 (a div b) = a div b" using assms by (intro wrap64_id) auto
  with s assms show "int_quo a b = Inr (a div b)" "int_rem a b = Inr (a mod b)"
    by (simp_all add: int_quo_def int_rem_def)
qed


text \<open>
  C1. For \<open>totalCalls \<ge> 0\<close> and \<open>numThreads \<ge> 1\<close> (both values of a 64-bit \<open>int\<close>) the
  coordinator gives worker \<open>i\<close> the count \<open>totalCalls div numThreads\<close>, plus one when
  \<open>i < totalCalls mod numThreads\<close>. The workers are numbered \<open>0 .. numThreads - 1\<close> in
  launch order, the counts sum to \<open>totalCalls\<close>, any two differ by at most 1, and the
  workers with the larger count are exactly the first \<open>totalCalls mod numThreads\<close>.
  For 10 calls and 3 threads the counts are 4, 3, 3.
\<close>

theorem partition_counts:
  fixes totalCalls numThreads :: int
  assumes "0 \<le> totalCalls" and "1 \<le> numThreads" and "totalCalls < 2 ^ 63"
  shows "(\<exists>asg. assignments totalCalls numThreads = Inr asg
           \<and> map fst asg = [0..numThreads - 1]
           \<and> (\<forall>i<length asg. snd (asg ! i) =
                  totalCalls div numThreads + (if int i < totalCalls mod numThreads then 1 else 0))
           \<and> sum_list (map snd asg) = totalCalls
           \<and> (\<forall>a\<in>set asg. \<forall>b\<in>set asg. \<bar>snd a - snd b\<bar> \<le> 1)
           \<and> {i. i < length asg \<and> snd (asg ! i) = totalCalls div numThreads + 1}
               = {i. i < nat (totalCalls mod numThreads)}
           \<and> card {i. i < length asg \<and> snd (asg ! i) = totalCalls div numThreads + 1}
               = nat (totalCalls mod numThreads))
         \<and> assignments 10 3 = Inr [(0, 4), (1, 3), (2, 3)]"
proof -
  define c where "c = totalCalls div numThreads"
  define r where "r = totalCalls mod numThreads"
  define asg where "asg = launch numThreads c r 0"
  have r: "0 \<le> r" "r < numThreads"
    using assms by (simp_all add: r_def)
  have asg_eq: "assignments totalCalls numThreads = Inr asg"
    using go_quo_rem [OF assms(1,2,3)] by (simp add: assignments_def asg_def c_def r_def)
  have asg_map: "asg = map (\<lambda>j. (j, if j < r then c + 1 else c)) [0..numThreads - 1]"
    unfolding asg_def using count_no_wrap [OF assms] by (intro launch_upto) (simp_all add: c_def r_def)
  have len: "length asg = nat numThreads"
    by (simp add: asg_map)
  have ids: "map fst asg = [0..numThreads - 1]"
    by (simp add: asg_map comp_def)
  have nth: "snd (asg ! i) = c + (if int i < r then 1 else 0)" if "i < length asg" for i
    using that by (simp add: asg_map)
  have total: "sum_list (map snd asg) = totalCalls"
  proof -
    have "sum_list (map snd asg) = numThreads * c + r"
      using sum_counts [of r 0 numThreads c] r assms(2) by (simp add: asg_map)
    then show ?thesis by (simp add: c_def r_def)
  qed
  have near: "\<forall>a\<in>set asg. \<forall>b\<in>set asg. \<bar>snd a - snd b\<bar> \<le> 1"
    by (auto simp: asg_map)
  have larger: "{i. i < length asg \<and> snd (asg ! i) = c + 1} = {i. i < nat r}"
    using r by (auto simp: nth len split: if_splits)
  have "card {i. i < length asg \<and> snd (asg ! i) = c + 1} = nat r"
    by (simp only: larger card_Collect_less_nat)
  with asg_eq ids nth total near larger
  have general: "\<exists>asg. assignments totalCalls numThreads = Inr asg
           \<and> map fst asg = [0..numThreads - 1]
           \<and> (\<forall>i<length asg. snd (asg ! i) =
                  totalCalls div numThreads + (if int i < totalCalls mod numThreads then 1 else 0))
           \<and> sum_list (map snd asg) = totalCalls
           \<and> (\<forall>a\<in>set asg. \<forall>b\<in>set asg. \<bar>snd a - snd b\<bar> \<le> 1)
           \<and> {i. i < length asg \<and> snd (asg ! i) = totalCalls div numThreads + 1}
               = {i. i < nat (totalCalls mod numThreads)}
           \<and> card {i. i < length asg \<and> snd (asg ! i) = totalCalls div numThreads + 1}
               = nat (totalCalls mod numThreads)"
    unfolding c_def r_def by blast
  have "[0..(2::int)] = [0, 1, 2]"
    by (simp add: upto_rec1)
  moreover have "launch 3 3 1 0 = map (\<lambda>j. (j, if j < 1 then 3 + 1 else 3)) [0..3 - 1]"
    by (intro launch_upto) (simp_all add: wrap64_id)
  ultimately have example: "assignments 10 3 = Inr [(0, 4), (1, 3), (2, 3)]"
    using go_quo_rem [of 10 3] by (simp add: assignments_def)
  from general example show ?thesis by (rule conjI)
qed

theorem partition_counts_witness:
  "(0::int) \<le> 7 \<and> (1::int) \<le> 4 \<and> (7::int) < 2 ^ 63
   \<and> assignments 7 4 = Inr [(0, 2), (1, 2), (2, 2), (3, 1)]
   \<and> sum_list (map snd [(0::int, 2::int), (1, 2), (2, 2), (3, 1)]) = 7"
proof -
  have e: "assignments 7 4 = Inr [(0, 2), (1, 2), (2, 2), (3, 1)]"
    by (simp add: assignments_def int_quo_def int_rem_def wrap64_def launch.simps
        signed_divide_int_def signed_modulo_int_def signed_take_bit_int_eq_self)
  with partition_counts [of 7 4] show ?thesis by simp
qed

section \<open>The workers' histories under any schedule\<close>

lemma iteration_parts:
  "\<exists>line. iteration lib c tid req (status_before lib tid i) i =
     (status_before lib tid (Suc i), call_effects lib c tid req i, line,
      responseTime (Do lib tid i))"
  by (simp add: iteration_def call_effects_def Let_def)

lemma step_worker_ok:
  assumes "worker_ok lib c a w" and "fetchData_step lib c w = (w', out, rts, None)"
  shows "worker_ok lib c a w'"
proof (cases "pc w")
  case Start
  with assms show ?thesis
    by (auto simp: fetchData_step_def worker_ok_def template_def split: sum.splits)
next
  case (Loop req status i)
  show ?thesis
  proof (cases "int i < numCalls w")
    case True
    from assms(1) Loop have st: "status = status_before lib (fst a) i" and t: "threadID w = fst a"
      by (simp_all add: worker_ok_def)
    obtain line where "iteration lib c (threadID w) req status i =
        (status_before lib (fst a) (Suc i), call_effects lib c (fst a) req i, line,
         responseTime (Do lib (fst a) i))"
      using iteration_parts [of lib c "fst a" req i] st t by auto
    with assms Loop True show ?thesis
      by (auto simp: fetchData_step_def worker_ok_def)
  next
    case False
    with assms Loop have "i = nat (snd a)"
      by (auto simp: worker_ok_def)
    with assms Loop False show ?thesis
      by (auto simp: fetchData_step_def worker_ok_def)
  qed
next
  case Exited
  with assms show ?thesis
    by (auto simp: fetchData_step_def)
qed

lemma step_completed:
  assumes "worker_ok lib c a w" and "fetchData_step lib c w = (w', out, rts, None)"
  shows "completed w' = completed w + length rts"
proof (cases "pc w")
  case Start
  with assms show ?thesis
    by (auto simp: fetchData_step_def completed_def split: sum.splits)
next
  case (Loop req status i)
  show ?thesis
  proof (cases "int i < numCalls w")
    case True
    with assms Loop show ?thesis
      by (auto simp: fetchData_step_def completed_def split: prod.splits)
  next
    case False
    with assms Loop have "i = nat (snd a)"
      by (auto simp: worker_ok_def)
    with assms Loop False show ?thesis
      by (auto simp: fetchData_step_def completed_def worker_ok_def)
  qed
next
  case Exited
  with assms show ?thesis
    by (auto simp: fetchData_step_def)
qed

lemma sched_step_run_ok:
  assumes ok: "run_ok lib c asg s" and alive: "crashed (sched_step lib c s k) = None"
  shows "run_ok lib c asg (sched_step lib c s k)"
proof (cases "crashed s \<noteq> None \<or> length (workers s) \<le> k")
  case True
  with ok show ?thesis by (simp add: sched_step_def)
next
  case False
  then have k: "k < length (workers s)" and c0: "crashed s = None" by auto
  obtain w' out rts p where st: "fetchData_step lib c (workers s ! k) = (w', out, rts, p)"
    by (cases "fetchData_step lib c (workers s ! k)") auto
  from False st have s': "sched_step lib c s k =
      s\<lparr>workers := (workers s)[k := w'], responseTimes := responseTimes s @ rts,
        stdout := stdout s @ out, crashed := p\<rparr>"
    by (simp add: sched_step_def)
  with alive have p: "p = None" by simp
  from ok have len: "length (workers s) = length asg"
    and all: "list_all2 (worker_ok lib c) asg (workers s)"
    and cnt: "length (responseTimes s) = sum_list (map completed (workers s))"
    by (simp_all add: run_ok_def)
  from all k len have wk: "worker_ok lib c (asg ! k) (workers s ! k)"
    by (simp add: list_all2_nthD2)
  from step_worker_ok [OF wk] st p have wk': "worker_ok lib c (asg ! k) w'" by simp
  from step_completed [OF wk] st p have done': "completed w' = completed (workers s ! k) + length rts"
    by simp
  have all': "list_all2 (worker_ok lib c) asg ((workers s)[k := w'])"
    using all wk' k len by (simp add: list_all2_conv_all_nth nth_list_update)
  have "sum_list (map completed ((workers s)[k := w'])) =
        sum_list ((map completed (workers s))[k := completed w'])"
    by (simp add: map_update)
  also have "\<dots> = sum_list (map completed (workers s)) + completed w' - completed (workers s ! k)"
    using k by (simp add: sum_list_update)
  also have "\<dots> = sum_list (map completed (workers s)) + length rts"
    using done' by simp
  finally have "length (responseTimes s @ rts) = sum_list (map completed ((workers s)[k := w']))"
    using cnt by simp
  with all' len show ?thesis
    by (simp add: run_ok_def s')
qed

lemma launched_run_ok: "run_ok lib c asg (launched asg)"
proof -
  have "list_all2 (worker_ok lib c) asg
          (map (\<lambda>(t, n). \<lparr>threadID = t, numCalls = n, pc = Start, effects = []\<rparr>) asg)"
    by (induction asg) (auto simp: worker_ok_def)
  moreover have "sum_list (map completed
          (map (\<lambda>(t, n). \<lparr>threadID = t, numCalls = n, pc = Start, effects = []\<rparr>) asg)) = 0"
    by (induction asg) (auto simp: completed_def)
  ultimately show ?thesis by (simp add: run_ok_def launched_def)
qed

lemma exec_snoc: "exec lib c (sched @ [k]) s = sched_step lib c (exec lib c sched s) k"
  by (simp add: exec_def)

lemma crashed_sticky: "crashed s \<noteq> None \<Longrightarrow> sched_step lib c s k = s"
  by (simp add: sched_step_def)

lemma exec_run_ok:
  "run_ok lib c asg s \<Longrightarrow> crashed (exec lib c sched s) = None \<Longrightarrow>
   run_ok lib c asg (exec lib c sched s)"
proof (induction sched rule: rev_induct)
  case Nil
  then show ?case by (simp add: exec_def)
next
  case (snoc k sched)
  let ?s = "exec lib c sched s"
  from snoc.prems(2) have alive: "crashed (sched_step lib c ?s k) = None"
    by (simp add: exec_snoc)
  have "crashed ?s = None"
  proof (rule ccontr)
    assume "crashed ?s \<noteq> None"
    with alive crashed_sticky [of ?s lib c k] show False by simp
  qed
  with snoc have "run_ok lib c asg ?s" by simp
  from sched_step_run_ok [OF this alive] show ?case by (simp add: exec_snoc)
qed

lemma step_no_panic:
  assumes "template lib c \<noteq> None"
  shows "snd (snd (snd (fetchData_step lib c w))) = None"
  using assms
  by (cases "pc w")
     (auto simp: fetchData_step_def template_def split: sum.splits prod.splits)

lemma sched_step_alive:
  assumes "template lib c \<noteq> None" and "crashed s = None"
  shows "crashed (sched_step lib c s k) = None"
proof (cases "length (workers s) \<le> k")
  case True
  with assms show ?thesis by (simp add: sched_step_def)
next
  case False
  obtain w' out rts p where st: "fetchData_step lib c (workers s ! k) = (w', out, rts, p)"
    by (cases "fetchData_step lib c (workers s ! k)") auto
  with step_no_panic [OF assms(1), of "workers s ! k"] have "p = None" by simp
  with st False assms show ?thesis by (simp add: sched_step_def)
qed

lemma exec_alive:
  "template lib c \<noteq> None \<Longrightarrow> crashed s = None \<Longrightarrow> crashed (exec lib c sched s) = None"
  by (induction sched rule: rev_induct) (simp_all add: exec_def sched_step_alive)

lemma exec_Cons: "exec lib c (k # sched) s = exec lib c sched (sched_step lib c s k)"
  by (simp add: exec_def)

lemma step_progress:
  assumes "template lib c \<noteq> None" and "pc w \<noteq> Exited"
  shows "steps_left (fst (fetchData_step lib c w)) < steps_left w"
  using assms
  by (cases "pc w")
     (auto simp: fetchData_step_def template_def steps_left_def split: sum.splits prod.splits)

lemma step_numCalls: "numCalls (fst (fetchData_step lib c w)) = numCalls w"
  by (cases "pc w") (auto simp: fetchData_step_def split: sum.splits prod.splits)

lemma joined_iff: "joined s \<longleftrightarrow> (\<forall>w\<in>set (workers s). pc w = Exited)"
proof -
  have "(case p of Exited \<Rightarrow> True | _ \<Rightarrow> False) \<longleftrightarrow> p = Exited" for p
    by (cases p) simp_all
  then show ?thesis by (simp add: joined_def list_all_iff)
qed

lemma not_joined:
  assumes "\<not> joined s"
  obtains k where "k < length (workers s)" and "pc (workers s ! k) \<noteq> Exited"
proof -
  from assms obtain w where "w \<in> set (workers s)" and "pc w \<noteq> Exited"
    by (auto simp: joined_iff)
  then show ?thesis using that by (auto simp: in_set_conv_nth)
qed

lemma can_join:
  assumes t: "template lib c \<noteq> None"
  shows "crashed s = None \<Longrightarrow> \<exists>sched. joined (exec lib c sched s)"
proof (induction "sum_list (map steps_left (workers s))" arbitrary: s rule: less_induct)
  case less
  show ?case
  proof (cases "joined s")
    case True
    then have "joined (exec lib c [] s)" by (simp add: exec_def)
    then show ?thesis by blast
  next
    case False
    then obtain k where k: "k < length (workers s)" and pck: "pc (workers s ! k) \<noteq> Exited"
      by (rule not_joined)
    let ?s' = "sched_step lib c s k"
    obtain w' out rts p where st: "fetchData_step lib c (workers s ! k) = (w', out, rts, p)"
      by (cases "fetchData_step lib c (workers s ! k)") auto
    from step_progress [OF t pck] st have lt: "steps_left w' < steps_left (workers s ! k)"
      by simp
    from k less.prems st have ws: "workers ?s' = (workers s)[k := w']"
      by (simp add: sched_step_def)
    have "sum_list (map steps_left (workers ?s')) =
          sum_list ((map steps_left (workers s))[k := steps_left w'])"
      by (simp add: ws map_update)
    also have "\<dots> = sum_list (map steps_left (workers s)) + steps_left w' - steps_left (workers s ! k)"
      using k by (simp add: sum_list_update)
    also have "\<dots> < sum_list (map steps_left (workers s))"
    proof -
      have "steps_left (workers s ! k) \<le> sum_list (map steps_left (workers s))"
        using k by (simp add: member_le_sum_list)
      with lt show ?thesis by simp
    qed
    finally have dec: "sum_list (map steps_left (workers ?s')) < sum_list (map steps_left (workers s))" .
    have "crashed ?s' = None"
      using t less.prems by (rule sched_step_alive)
    from less.hyps [OF dec this] obtain sched where "joined (exec lib c sched ?s')" by blast
    then have "joined (exec lib c (k # sched) s)" by (simp add: exec_Cons)
    then show ?thesis by blast
  qed
qed

lemma appends_append: "appends (xs @ ys) = appends xs @ appends ys"
  by (simp add: appends_def)

lemma appends_WgDone: "appends [WgDone] = []"
  by (simp add: appends_def)

lemma appends_call_effects: "appends (call_effects lib c tid req i) = [responseTime (Do lib tid i)]"
  by (auto simp: appends_def call_effects_def iteration_def Let_def split: option.splits)

lemma appends_calls:
  "appends (concat (map (call_effects lib c tid req) is)) = map (\<lambda>i. responseTime (Do lib tid i)) is"
  by (induction "is") (simp_all add: appends_append appends_call_effects, simp add: appends_def)

lemma sum_nat_counts:
  "\<forall>a\<in>set asg. 0 \<le> snd a \<Longrightarrow> sum_list (map (\<lambda>a. nat (snd a)) asg) = nat (sum_list (map snd asg))"
proof (induction asg)
  case Nil
  then show ?case by simp
next
  case (Cons a asg)
  then have "0 \<le> sum_list (map snd asg)" by (intro sum_list_nonneg) auto
  with Cons show ?case by (simp add: nat_add_distrib)
qed

lemma assignments_total:
  fixes tc n :: int
  assumes "0 \<le> tc" and "1 \<le> n" and "tc < 2 ^ 63"
  shows "\<exists>asg. assignments tc n = Inr asg \<and> sum_list (map snd asg) = tc \<and> (\<forall>a\<in>set asg. 0 \<le> snd a)"
proof -
  let ?asg = "launch n (tc div n) (tc mod n) 0"
  have m: "?asg = map (\<lambda>j. (j, if j < tc mod n then tc div n + 1 else tc div n)) [0..n - 1]"
    using count_no_wrap [OF assms] by (intro launch_upto) simp_all
  have "assignments tc n = Inr ?asg"
    using go_quo_rem [OF assms] by (simp add: assignments_def)
  moreover have "sum_list (map snd ?asg) = n * (tc div n) + tc mod n"
    using sum_counts [of "tc mod n" 0 n "tc div n"] assms by (simp add: m)
  moreover have "\<forall>a\<in>set ?asg. 0 \<le> snd a"
    using assms by (auto simp: m pos_imp_zdiv_nonneg_iff)
  ultimately show ?thesis by simp
qed

lemma run_ok_nth:
  assumes "run_ok lib c asg s" and "k < length (workers s)"
  shows "worker_ok lib c (asg ! k) (workers s ! k)"
proof -
  from assms(1) have "list_all2 (worker_ok lib c) asg (workers s)"
    by (simp add: run_ok_def)
  from list_all2_nthD2 [OF this assms(2)] show ?thesis .
qed

lemma joined_completed:
  assumes "run_ok lib c asg s" and "joined s"
  shows "map completed (workers s) = map (\<lambda>a. nat (snd a)) asg"
proof (rule nth_equalityI)
  show "length (map completed (workers s)) = length (map (\<lambda>a. nat (snd a)) asg)"
    using assms(1) by (simp add: run_ok_def)
next
  fix k assume "k < length (map completed (workers s))"
  then have k: "k < length (workers s)" by simp
  with assms(1) have "worker_ok lib c (asg ! k) (workers s ! k)"
    by (rule run_ok_nth)
  moreover from assms(2) k have "pc (workers s ! k) = Exited"
    by (simp add: joined_iff)
  ultimately have "completed (workers s ! k) = nat (snd (asg ! k))"
    by (simp add: completed_def worker_ok_def)
  with k assms(1) show "map completed (workers s) ! k = map (\<lambda>a. nat (snd a)) asg ! k"
    by (simp add: run_ok_def)
qed

lemma exited_appends:
  assumes "run_ok lib c asg s" and "w \<in> set (workers s)" and "pc w = Exited"
  shows "appends (effects w) = map (\<lambda>i. responseTime (Do lib (threadID w) i)) [0..<nat (numCalls w)]"
proof -
  from assms(2) obtain k where k: "k < length (workers s)" and w: "w = workers s ! k"
    by (auto simp: in_set_conv_nth)
  with run_ok_nth [OF assms(1), of k] have "worker_ok lib c (asg ! k) w"
    by simp
  with assms(3) show ?thesis
    by (auto simp: worker_ok_def appends_append appends_calls appends_WgDone split: option.splits)
qed

lemma started_launched:
  assumes start: "main_start lib args = Inr (c, cl, s0)"
    and tc: "0 \<le> totalCalls c" "totalCalls c < 2 ^ 63" and nt: "1 \<le> numThreads c"
  obtains asg where "s0 = launched asg" and "sum_list (map snd asg) = totalCalls c"
    and "\<forall>a\<in>set asg. 0 \<le> snd a"
proof -
  from assignments_total [OF tc(1) nt tc(2)] obtain asg
    where asg: "assignments (totalCalls c) (numThreads c) = Inr asg"
      and total: "sum_list (map snd asg) = totalCalls c"
      and nonneg: "\<forall>a\<in>set asg. 0 \<le> snd a"
    by blast
  from start asg have s0: "s0 = launched asg"
    by (auto simp: main_start_def Let_def split: sum.splits)
  from s0 total nonneg show ?thesis by (rule that)
qed

lemma url_ok_template: "url_parse_error lib (url c) = None \<Longrightarrow> template lib c \<noteq> None"
  by (simp add: template_def NewRequest_def)

lemma launched_alive: "crashed (launched asg) = None"
  by (simp add: launched_def)

lemma joined_length:
  assumes ok: "run_ok lib c asg s" and j: "joined s" and nonneg: "\<forall>a\<in>set asg. 0 \<le> snd a"
  shows "length (responseTimes s) = nat (sum_list (map snd asg))"
proof -
  have "length (responseTimes s) = sum_list (map completed (workers s))"
    using ok by (simp add: run_ok_def)
  also have "\<dots> = sum_list (map (\<lambda>a. nat (snd a)) asg)"
    using joined_completed [OF ok j] by simp
  also have "\<dots> = nat (sum_list (map snd asg))"
    using sum_nat_counts [OF nonneg] .
  finally show ?thesis .
qed

section \<open>The response-time sequence\<close>

text \<open>
  C2. Take a run with \<open>totalCalls \<ge> 0\<close> and \<open>numThreads \<ge> 1\<close> in which the request template
  can be built (no worker fails at its start). Under every schedule no goroutine
  panics, some schedule lets all workers return, and whenever all workers have returned
  the shared sequence has exactly \<open>totalCalls\<close> entries: each worker has appended the
  measured time of each of its calls \<open>0 .. numCalls - 1\<close>, once and in order, whatever
  the outcome of the call.
\<close>

theorem response_times_length:
  assumes start: "main_start lib args = Inr (c, cl, s0)"
    and tc: "0 \<le> totalCalls c" "totalCalls c < 2 ^ 63" and nt: "1 \<le> numThreads c"
    and req: "url_parse_error lib (url c) = None"
  shows "(\<forall>sched. crashed (exec lib c sched s0) = None)
       \<and> (\<exists>sched. joined (exec lib c sched s0))
       \<and> (\<forall>sched. joined (exec lib c sched s0) \<longrightarrow>
            length (responseTimes (exec lib c sched s0)) = nat (totalCalls c)
          \<and> (\<forall>w\<in>set (workers (exec lib c sched s0)).
                appends (effects w) =
                  map (\<lambda>i. responseTime (Do lib (threadID w) i)) [0..<nat (numCalls w)]))"
proof -
  from start tc nt obtain asg where s0: "s0 = launched asg"
    and total: "sum_list (map snd asg) = totalCalls c"
    and nonneg: "\<forall>a\<in>set asg. 0 \<le> snd a"
    by (rule started_launched)
  have t: "template lib c \<noteq> None"
    using req by (rule url_ok_template)
  have c0: "crashed s0 = None"
    by (simp add: s0 launched_alive)
  have alive: "crashed (exec lib c sched s0) = None" for sched
    using t c0 by (rule exec_alive)
  have ok: "run_ok lib c asg (exec lib c sched s0)" for sched
    using launched_run_ok alive unfolding s0 by (rule exec_run_ok)
  have len: "length (responseTimes (exec lib c sched s0)) = nat (totalCalls c)"
    if j: "joined (exec lib c sched s0)" for sched
    using joined_length [OF ok j nonneg] total by simp
  have each: "appends (effects w) = map (\<lambda>i. responseTime (Do lib (threadID w) i)) [0..<nat (numCalls w)]"
    if j: "joined (exec lib c sched s0)" and w: "w \<in> set (workers (exec lib c sched s0))" for sched w
  proof -
    from j w have "pc w = Exited"
      by (simp add: joined_iff)
    with ok [of sched] w show ?thesis by (rule exited_appends)
  qed
  from can_join [OF t c0] have "\<exists>sched. joined (exec lib c sched s0)" .
  with alive len each show ?thesis by blast
qed

lemma sample_parse: "main_parse sample_lib sample_args = Inr sample_config"
  by code_simp

lemma sample_assignments: "assignments 3 2 = Inr [(0, 2), (1, 1)]"
  by code_simp

lemma sample_start:
  "main_start sample_lib sample_args = Inr (sample_config, new_client sample_config, launched [(0, 2), (1, 1)])"
proof -
  have "totalCalls sample_config = 3" and "numThreads sample_config = 2"
    by (simp_all add: sample_config_def)
  then show ?thesis
    by (simp add: main_start_def sample_parse sample_assignments)
qed

lemma sample_joined: "joined (exec sample_lib sample_config [0, 1, 0, 1, 0, 1, 0] (launched [(0, 2), (1, 1)]))"
  by code_simp


lemma sample_url_ok: "url_parse_error sample_lib (url sample_config) = None"
  by (simp add: sample_lib_def sample_config_def)

theorem response_times_length_witness:
  "main_start sample_lib sample_args =
     Inr (sample_config, new_client sample_config, launched [(0, 2), (1, 1)])
   \<and> 0 \<le> totalCalls sample_config \<and> totalCalls sample_config < 2 ^ 63
   \<and> 1 \<le> numThreads sample_config
   \<and> url_parse_error sample_lib (url sample_config) = None
   \<and> joined (exec sample_lib sample_config [0, 1, 0, 1, 0, 1, 0] (launched [(0, 2), (1, 1)]))
   \<and> length (responseTimes
        (exec sample_lib sample_config [0, 1, 0, 1, 0, 1, 0] (launched [(0, 2), (1, 1)]))) = 3"
proof -
  have c: "0 \<le> totalCalls sample_config" "totalCalls sample_config < 2 ^ 63"
      "1 \<le> numThreads sample_config" "nat (totalCalls sample_config) = 3"
    by (simp_all add: sample_config_def)
  from response_times_length [OF sample_start c(1,2,3) sample_url_ok] sample_joined
  have "length (responseTimes
        (exec sample_lib sample_config [0, 1, 0, 1, 0, 1, 0] (launched [(0, 2), (1, 1)]))) = 3"
    using c(4) by metis
  with sample_start c sample_url_ok sample_joined show ?thesis by simp
qed

section \<open>The average over no calls\<close>

lemma step_out_length:
  "fetchData_step lib c w = (w', out, rts, None) \<Longrightarrow> length out = length rts"
  by (cases "pc w") (auto simp: fetchData_step_def split: sum.splits prod.splits if_splits)

lemma sched_step_stdout:
  assumes "length (stdout s) = length (responseTimes s)"
    and "crashed (sched_step lib c s k) = None"
  shows "length (stdout (sched_step lib c s k)) = length (responseTimes (sched_step lib c s k))"
proof (cases "crashed s \<noteq> None \<or> length (workers s) \<le> k")
  case True
  with assms show ?thesis by (simp add: sched_step_def)
next
  case False
  obtain w' out rts p where st: "fetchData_step lib c (workers s ! k) = (w', out, rts, p)"
    by (cases "fetchData_step lib c (workers s ! k)") auto
  with False assms(2) have "p = None" by (simp add: sched_step_def)
  with st have "length out = length rts" by (simp add: step_out_length)
  with False st assms(1) show ?thesis by (simp add: sched_step_def)
qed

lemma exec_stdout:
  "length (stdout s) = length (responseTimes s) \<Longrightarrow> crashed (exec lib c sched s) = None \<Longrightarrow>
   length (stdout (exec lib c sched s)) = length (responseTimes (exec lib c sched s))"
proof (induction sched rule: rev_induct)
  case Nil
  then show ?case by (simp add: exec_def)
next
  case (snoc k sched)
  let ?s = "exec lib c sched s"
  from snoc.prems(2) have alive: "crashed (sched_step lib c ?s k) = None"
    by (simp add: exec_snoc)
  have "crashed ?s = None"
  proof (rule ccontr)
    assume "crashed ?s \<noteq> None"
    with alive crashed_sticky [of ?s lib c k] show False by simp
  qed
  with snoc have "length (stdout ?s) = length (responseTimes ?s)" by simp
  from sched_step_stdout [OF this alive] show ?case by (simp add: exec_snoc)
qed

lemma average_empty: "averageResponseTime lib [] = NaN"
  by (simp add: averageResponseTime_def float64_of_int_def)

text \<open>
  C3 (as the code has it). For a run with \<open>totalCalls = 0\<close>, \<open>numThreads \<ge> 1\<close> and a request
  template that can be built, the response-time sequence is empty after the join and
  nothing was logged; the average is the float64 quotient 0 / 0, which does not fault:
  under every schedule \<open>main\<close> is either still waiting for the workers or returns with
  the three summary lines and the completion line, some schedule makes it return, and
  the average it prints is NaN. No other value is substituted.
\<close>

theorem average_of_no_calls:
  assumes start: "main_start lib args = Inr (c, cl, s0)"
    and tc: "totalCalls c = 0" and nt: "1 \<le> numThreads c"
    and req: "url_parse_error lib (url c) = None"
  shows "(\<forall>sched. main lib sched args = Waits
            \<or> main lib sched args =
                Returns [TotalTestTime (totalTime lib), AverageResponseTime NaN,
                         AverageRequestsPerSecond (requestsPerSecond lib c), AllThreadsFinished])
       \<and> (\<exists>sched. main lib sched args =
                Returns [TotalTestTime (totalTime lib), AverageResponseTime NaN,
                         AverageRequestsPerSecond (requestsPerSecond lib c), AllThreadsFinished])"
proof -
  let ?out = "Returns [TotalTestTime (totalTime lib), AverageResponseTime NaN,
                       AverageRequestsPerSecond (requestsPerSecond lib c), AllThreadsFinished]"
  have range: "0 \<le> totalCalls c" "totalCalls c < 2 ^ 63"
    using tc by simp_all
  from start range nt obtain asg where s0: "s0 = launched asg"
    and total: "sum_list (map snd asg) = totalCalls c"
    and nonneg: "\<forall>a\<in>set asg. 0 \<le> snd a"
    by (rule started_launched)
  have t: "template lib c \<noteq> None"
    using req by (rule url_ok_template)
  have c0: "crashed s0 = None"
    by (simp add: s0 launched_alive)
  have alive: "crashed (exec lib c sched s0) = None" for sched
    using t c0 by (rule exec_alive)
  have fin: "main lib sched args = ?out" if j: "joined (exec lib c sched s0)" for sched
  proof -
    have ok: "run_ok lib c asg (exec lib c sched s0)"
      using launched_run_ok alive unfolding s0 by (rule exec_run_ok)
    from joined_length [OF ok j nonneg] total tc
    have rts: "responseTimes (exec lib c sched s0) = []" by simp
    have "length (stdout s0) = length (responseTimes s0)"
      by (simp add: s0 launched_def)
    from exec_stdout [OF this alive, of sched] rts
    have out: "stdout (exec lib c sched s0) = []" by simp
    from start alive [of sched] j rts out show ?thesis
      by (simp add: main_def Let_def report_def average_empty)
  qed
  have "main lib sched args = Waits \<or> main lib sched args = ?out" for sched
  proof (cases "joined (exec lib c sched s0)")
    case True
    then show ?thesis by (simp add: fin)
  next
    case False
    with start alive [of sched] show ?thesis by (simp add: main_def Let_def)
  qed
  moreover from can_join [OF t c0] obtain sched where "joined (exec lib c sched s0)" by blast
  then have "main lib sched args = ?out" by (rule fin)
  ultimately show ?thesis by blast
qed

text \<open>
  C3 as stated fails: with \<open>-totalCalls 0 -numThreads 1\<close> the program returns normally
  and the average response time it reports is NaN, not a fallback value.
\<close>

theorem average_of_no_calls_is_NaN:
  "main sample_lib [0, 0] idle_args =
     Returns [TotalTestTime (Finite 2), AverageResponseTime NaN,
              AverageRequestsPerSecond (Finite 0), AllThreadsFinished]"
  by code_simp

lemma idle_parse: "main_parse sample_lib idle_args = Inr idle_config"
  by code_simp

lemma idle_assignments: "assignments 0 1 = Inr [(0, 0)]"
  by code_simp

lemma idle_start:
  "main_start sample_lib idle_args = Inr (idle_config, new_client idle_config, launched [(0, 0)])"
proof -
  have "totalCalls idle_config = 0" and "numThreads idle_config = 1"
    by (simp_all add: idle_config_def)
  then show ?thesis
    by (simp add: main_start_def idle_parse idle_assignments)
qed

theorem average_of_no_calls_witness:
  "main_start sample_lib idle_args = Inr (idle_config, new_client idle_config, launched [(0, 0)])
   \<and> totalCalls idle_config = 0 \<and> 1 \<le> numThreads idle_config
   \<and> url_parse_error sample_lib (url idle_config) = None
   \<and> (\<exists>sched. main sample_lib sched idle_args =
         Returns [TotalTestTime (Finite 2), AverageResponseTime NaN,
                  AverageRequestsPerSecond (requestsPerSecond sample_lib idle_config),
                  AllThreadsFinished])"
proof -
  have c: "totalCalls idle_config = 0" "1 \<le> numThreads idle_config"
      "url_parse_error sample_lib (url idle_config) = None"
    by (simp_all add: idle_config_def sample_lib_def)
  have "totalTime sample_lib = Finite 2" by (simp add: sample_lib_def)
  with average_of_no_calls [OF idle_start c] idle_start c show ?thesis by simp
qed

section \<open>A request template that cannot be built\<close>

lemma first_step_panics:
  assumes "url_parse_error lib (url c) = Some e" and "pc w = Start"
  shows "fetchData_step lib c w =
     (w\<lparr>effects := effects w @ [Print (RequestCreationFailed (threadID w) e)]\<rparr>,
      [RequestCreationFailed (threadID w) e], [], Some NilPointerDereference)"
  using assms by (simp add: fetchData_step_def NewRequest_def)

text \<open>
  C4 (what the code does where the claim asks for a short-circuit). When
  \<open>http.NewRequest\<close> fails, the worker that runs first prints the failure once and then
  reads \<open>request.Header\<close> of the nil request: the process ends in a nil-pointer panic,
  with that one line as its whole output.
\<close>

theorem request_creation_failure_panics:
  assumes start: "main_start lib args = Inr (c, cl, s0)"
    and bad: "url_parse_error lib (url c) = Some e"
    and k: "k < length (workers s0)"
  shows "main lib [k] args =
           Panics NilPointerDereference [RequestCreationFailed (threadID (workers s0 ! k)) e]"
proof -
  from start obtain asg where s0: "s0 = launched asg"
    by (auto simp: main_start_def Let_def split: sum.splits)
  from k have "pc (workers s0 ! k) = Start"
    by (auto simp: s0 launched_def split: prod.splits)
  from first_step_panics [OF bad this] k
  have "sched_step lib c s0 k =
      s0\<lparr>workers := (workers s0)[k := (workers s0 ! k)\<lparr>effects := effects (workers s0 ! k) @
                 [Print (RequestCreationFailed (threadID (workers s0 ! k)) e)]\<rparr>],
         responseTimes := responseTimes s0 @ [],
         stdout := stdout s0 @ [RequestCreationFailed (threadID (workers s0 ! k)) e],
         crashed := Some NilPointerDereference\<rparr>"
    by (simp add: sched_step_def s0 launched_def)
  moreover have "stdout s0 = []" by (simp add: s0 launched_def)
  ultimately show ?thesis
    using start by (simp add: main_def exec_def)
qed

lemma bad_url_parse: "main_parse sample_lib bad_url_args = Inr bad_url_config"
  by code_simp

lemma bad_url_assignments: "assignments 1 1 = Inr [(0, 1)]"
  by code_simp

lemma bad_url_start:
  "main_start sample_lib bad_url_args =
     Inr (bad_url_config, new_client bad_url_config, launched [(0, 1)])"
proof -
  have "totalCalls bad_url_config = 1" and "numThreads bad_url_config = 1"
    by (simp_all add: bad_url_config_def)
  then show ?thesis
    by (simp add: main_start_def bad_url_parse bad_url_assignments)
qed

theorem request_creation_failure_panics_witness:
  "main_start sample_lib bad_url_args =
     Inr (bad_url_config, new_client bad_url_config, launched [(0, 1)])
   \<and> url_parse_error sample_lib (url bad_url_config) = Some ''missing ] in host''
   \<and> 0 < length (workers (launched [(0, 1)]))
   \<and> main sample_lib [0] bad_url_args =
        Panics NilPointerDereference [RequestCreationFailed 0 ''missing ] in host'']"
proof -
  have bad: "url_parse_error sample_lib (url bad_url_config) = Some ''missing ] in host''"
    by (simp add: sample_lib_def bad_url_config_def)
  have k: "0 < length (workers (launched [(0, 1)]))"
    by (simp add: launched_def)
  have "threadID (workers (launched [(0, 1)]) ! 0) = 0"
    by (simp add: launched_def)
  with request_creation_failure_panics [OF bad_url_start bad k] bad_url_start bad k
  show ?thesis by simp
qed

section \<open>The flag loop\<close>

lemma parse_flags_step:
  assumes "parse_flags lib args i c = Inr c'" and "i < length args"
    and "args ! i \<noteq> ''-connectTimeOut''"
  shows "\<exists>c1. connectTimeOut c1 = connectTimeOut c \<and>
           (parse_flags lib args (i + 1) c1 = Inr c' \<or> parse_flags lib args (i + 2) c1 = Inr c')"
proof -
  from assms(1) have "(if i < length args then
        (if args ! i = ''-totalCalls'' then
           (if i + 1 < length args then
              (case Atoi lib (args ! (i + 1)) of
                 Inl argErr \<Rightarrow> Inl (Return [ErrNotValidInteger (args ! (i + 1)), Help])
               | Inr v \<Rightarrow> parse_flags lib args (i + 2) (c\<lparr>totalCalls := v\<rparr>))
            else Inl (Panic IndexOutOfRange))
         else if args ! i = ''-numThreads'' then
           (if i + 1 < length args then
              (case Atoi lib (args ! (i + 1)) of
                 Inl argErr \<Rightarrow> Inl (Return [ErrNotValidInteger (args ! (i + 1)), Help])
               | Inr v \<Rightarrow> parse_flags lib args (i + 2) (c\<lparr>numThreads := v\<rparr>))
            else Inl (Panic IndexOutOfRange))
         else if args ! i = ''-sleepTime'' then
           (if i + 1 < length args then
              (case ParseDuration lib (args ! (i + 1) @ ''ms'') of
                 Inl argErr \<Rightarrow> Inl (Return [ErrNotValidInteger (args ! (i + 1)), Help])
               | Inr v \<Rightarrow> parse_flags lib args (i + 2) (c\<lparr>sleepTime := v\<rparr>))
            else Inl (Panic IndexOutOfRange))
         else if args ! i = ''-requestTimeOut'' then
           (if i + 1 < length args then
              (case ParseDuration lib (args ! (i + 1) @ ''ms'') of
                 Inl argErr \<Rightarrow> Inl (Return [ErrNotValidInteger (args ! (i + 1)), Help])
               | Inr v \<Rightarrow> parse_flags lib args (i + 2) (c\<lparr>requestTimeOut := v\<rparr>))
            else Inl (Panic IndexOutOfRange))
         else if args ! i = ''-connectTimeOut'' then
           (if i + 1 < length args then
              (case ParseDuration lib (args ! (i + 1) @ ''ms'') of
                 Inl argErr \<Rightarrow> Inl (Return [ErrNotValidInteger (args ! (i + 1)), Help])
               | Inr v \<Rightarrow> parse_flags lib args (i + 2) (c\<lparr>connectTimeOut := v\<rparr>))
            else Inl (Panic IndexOutOfRange))
         else if args ! i = ''-reuseConnects'' then
           parse_flags lib args (i + 1) (c\<lparr>reuseConnects := True\<rparr>)
         else if args ! i = ''-keepConnectsOpen'' then
           parse_flags lib args (i + 1) (c\<lparr>keepConnectsOpen := True\<rparr>)
         else parse_flags lib args (i + 1) c)
      else Inr c) = Inr c'"
    by (subst (asm) parse_flags.simps)
  with assms(2,3) have
    "(\<exists>v. parse_flags lib args (i + 2) (c\<lparr>totalCalls := v\<rparr>) = Inr c')
     \<or> (\<exists>v. parse_flags lib args (i + 2) (c\<lparr>numThreads := v\<rparr>) = Inr c')
     \<or> (\<exists>v. parse_flags lib args (i + 2) (c\<lparr>sleepTime := v\<rparr>) = Inr c')
     \<or> (\<exists>v. parse_flags lib args (i + 2) (c\<lparr>requestTimeOut := v\<rparr>) = Inr c')
     \<or> parse_flags lib args (i + 1) (c\<lparr>reuseConnects := True\<rparr>) = Inr c'
     \<or> parse_flags lib args (i + 1) (c\<lparr>keepConnectsOpen := True\<rparr>) = Inr c'
     \<or> parse_flags lib args (i + 1) c = Inr c'"
    by (auto split: if_splits sum.splits)
  then consider
      v where "parse_flags lib args (i + 2) (c\<lparr>totalCalls := v\<rparr>) = Inr c'"
    | v where "parse_flags lib args (i + 2) (c\<lparr>numThreads := v\<rparr>) = Inr c'"
    | v where "parse_flags lib args (i + 2) (c\<lparr>sleepTime := v\<rparr>) = Inr c'"
    | v where "parse_flags lib args (i + 2) (c\<lparr>requestTimeOut := v\<rparr>) = Inr c'"
    | "parse_flags lib args (i + 1) (c\<lparr>reuseConnects := True\<rparr>) = Inr c'"
    | "parse_flags lib args (i + 1) (c\<lparr>keepConnectsOpen := True\<rparr>) = Inr c'"
    | "parse_flags lib args (i + 1) c = Inr c'"
    by blast
  then show ?thesis
  proof cases
    case 1 then show ?thesis by (intro exI [of _ "c\<lparr>totalCalls := v\<rparr>"]) simp
  next
    case 2 then show ?thesis by (intro exI [of _ "c\<lparr>numThreads := v\<rparr>"]) simp
  next
    case 3 then show ?thesis by (intro exI [of _ "c\<lparr>sleepTime := v\<rparr>"]) simp
  next
    case 4 then show ?thesis by (intro exI [of _ "c\<lparr>requestTimeOut := v\<rparr>"]) simp
  next
    case 5 then show ?thesis by (intro exI [of _ "c\<lparr>reuseConnects := True\<rparr>"]) simp
  next
    case 6 then show ?thesis by (intro exI [of _ "c\<lparr>keepConnectsOpen := True\<rparr>"]) simp
  next
    case 7 then show ?thesis by (intro exI [of _ c]) simp
  qed
qed

lemma parse_flags_end: "length args \<le> i \<Longrightarrow> parse_flags lib args i c = Inr c"
  by (subst parse_flags.simps) simp

lemma parse_flags_connectTimeOut:
  "parse_flags lib args i c = Inr c' \<Longrightarrow> ''-connectTimeOut'' \<notin> set (drop i args) \<Longrightarrow>
   connectTimeOut c' = connectTimeOut c"
proof (induction "length args - i" arbitrary: i c rule: less_induct)
  case less
  show ?case
  proof (cases "i < length args")
    case False
    with less.prems(1) show ?thesis by (simp add: parse_flags_end)
  next
    case True
    then have "args ! i \<in> set (drop i args)"
      by (metis Cons_nth_drop_Suc list.set_intros(1))
    with less.prems(2) have no: "args ! i \<noteq> ''-connectTimeOut''" by auto
    have "set (drop (i + 1) args) \<subseteq> set (drop i args)"
      and "set (drop (i + 2) args) \<subseteq> set (drop i args)"
      by (rule set_drop_subset_set_drop, simp)+
    with less.prems(2) have later: "''-connectTimeOut'' \<notin> set (drop (i + 1) args)"
        "''-connectTimeOut'' \<notin> set (drop (i + 2) args)"
      by auto
    from parse_flags_step [OF less.prems(1) True no] obtain c1
      where c1: "connectTimeOut c1 = connectTimeOut c"
        and next_call: "parse_flags lib args (i + 1) c1 = Inr c' \<or> parse_flags lib args (i + 2) c1 = Inr c'"
      by blast
    from next_call show ?thesis
    proof
      assume p: "parse_flags lib args (i + 1) c1 = Inr c'"
      have "length args - (i + 1) < length args - i" using True by simp
      from less.hyps [OF this p later(1)] c1 show ?thesis by simp
    next
      assume p: "parse_flags lib args (i + 2) c1 = Inr c'"
      have "length args - (i + 2) < length args - i" using True by simp
      from less.hyps [OF this p later(2)] c1 show ?thesis by simp
    qed
  qed
qed

section \<open>Zero threads\<close>

lemma numThreads_unchecked:
  assumes "Atoi lib v = Inr n" and "HasPrefix u ''http''"
    and "v \<noteq> ''-?''" and "v \<noteq> ''--help''"
  shows "main_parse lib [p, u, ''-numThreads'', v] = Inr (defaults\<lparr>url := u, numThreads := n\<rparr>)"
proof -
  from assms(2) have "u \<noteq> ''-?''" and "u \<noteq> ''--help''"
    by (auto simp: HasPrefix_def)
  moreover have "parse_flags lib [p, u, ''-numThreads'', v] 2 (defaults\<lparr>url := u\<rparr>) =
      Inr (defaults\<lparr>url := u, numThreads := n\<rparr>)"
    using assms(1) by (subst parse_flags.simps) (simp add: parse_flags_end)
  ultimately show ?thesis
    using assms by (simp add: main_parse_def)
qed

text \<open>
  C10. The value \<open>strconv.Atoi\<close> returns for \<open>-numThreads\<close> is stored as it is, whatever
  it is, and it is the divisor of the partition: when the parsed configuration has
  \<open>numThreads = 0\<close>, \<open>main\<close> panics with an integer division by zero before any worker
  exists, under every schedule and with nothing printed.
\<close>

theorem zero_threads_divide_by_zero:
  assumes "Atoi lib v = Inr n" and "HasPrefix u ''http''"
    and "v \<noteq> ''-?''" and "v \<noteq> ''--help''"
    and "main_parse lib args = Inr c" and "numThreads c = 0"
  shows "main_parse lib [p, u, ''-numThreads'', v] = Inr (defaults\<lparr>url := u, numThreads := n\<rparr>)
       \<and> main_start lib args = Inl (Panic IntegerDivideByZero)
       \<and> (\<forall>sched. main lib sched args = Panics IntegerDivideByZero [])"
proof -
  from assms(5,6) have "main_start lib args = Inl (Panic IntegerDivideByZero)"
    by (simp add: main_start_def assignments_def int_quo_def)
  then have "\<forall>sched. main lib sched args = Panics IntegerDivideByZero []"
    by (simp add: main_def)
  with numThreads_unchecked [OF assms(1-4)] \<open>main_start lib args = Inl (Panic IntegerDivideByZero)\<close>
  show ?thesis by simp
qed

lemma no_thread_parse: "main_parse sample_lib no_thread_args = Inr no_thread_config"
  by code_simp

theorem zero_threads_divide_by_zero_witness:
  "Atoi sample_lib ''0'' = Inr 0 \<and> HasPrefix ''http://h'' ''http''
   \<and> main_parse sample_lib no_thread_args = Inr no_thread_config
   \<and> numThreads no_thread_config = 0
   \<and> main_parse sample_lib [''api-tester'', ''http://h'', ''-numThreads'', ''0''] =
        Inr (defaults\<lparr>url := ''http://h'', numThreads := 0\<rparr>)
   \<and> main_start sample_lib no_thread_args = Inl (Panic IntegerDivideByZero)
   \<and> main sample_lib [0, 1] no_thread_args = Panics IntegerDivideByZero []"
proof -
  have a: "Atoi sample_lib ''0'' = Inr 0"
    by (simp add: sample_lib_def sample_Atoi_def)
  have h: "HasPrefix ''http://h'' ''http''"
    by (simp add: HasPrefix_def)
  have v: "''0'' \<noteq> ''-?''" "''0'' \<noteq> ''--help''"
    by simp_all
  have z: "numThreads no_thread_config = 0"
    by (simp add: no_thread_config_def)
  from zero_threads_divide_by_zero [OF a h v no_thread_parse z, of "''api-tester''"]
    a h no_thread_parse z
  show ?thesis by simp
qed

section \<open>The default connect timeout\<close>

lemma default_connectTimeOut: "connectTimeOut defaults = 3 * (10000 * Millisecond)"
  by (simp add: defaults_def Let_def Millisecond_def wrap64_def signed_take_bit_int_eq_self)

lemma help_matches_other_defaults:
  "totalCalls defaults = totalCalls help_defaults"
  "numThreads defaults = numThreads help_defaults"
  "sleepTime defaults = sleepTime help_defaults"
  "requestTimeOut defaults = requestTimeOut help_defaults"
  by (simp_all add: defaults_def help_defaults_def Let_def)

text \<open>
  C6 (where the code departs from it). When no \<open>-connectTimeOut\<close> flag is given, the
  resolved connect timeout is \<open>requestTimeOut * 3\<close> taken at the default request timeout
  of 10000 ms, before the flags are read: 30000 ms, whatever \<open>-requestTimeOut\<close> says. The
  help text announces 20000 ms for it; the other defaults are the ones it announces.
\<close>

theorem connectTimeOut_default:
  assumes "main_parse lib args = Inr c" and "''-connectTimeOut'' \<notin> set (drop 2 args)"
  shows "connectTimeOut c = wrap64 (requestTimeOut defaults * 3)
       \<and> connectTimeOut c = 30000 * Millisecond
       \<and> connectTimeOut help_defaults = 20000 * Millisecond
       \<and> connectTimeOut c \<noteq> connectTimeOut help_defaults
       \<and> totalCalls defaults = totalCalls help_defaults
       \<and> numThreads defaults = numThreads help_defaults
       \<and> sleepTime defaults = sleepTime help_defaults
       \<and> requestTimeOut defaults = requestTimeOut help_defaults"
proof -
  from assms(1) have "parse_flags lib args 2 (defaults\<lparr>url := args ! 1\<rparr>) = Inr c"
    by (simp add: main_parse_def split: if_splits)
  from parse_flags_connectTimeOut [OF this assms(2)]
  have v: "connectTimeOut c = 3 * (10000 * Millisecond)"
    by (simp add: default_connectTimeOut)
  have "requestTimeOut defaults = 10000 * Millisecond"
    by (simp add: defaults_def Let_def)
  with v default_connectTimeOut have "connectTimeOut c = wrap64 (requestTimeOut defaults * 3)"
    by (simp add: defaults_def Let_def)
  with v have "connectTimeOut c = wrap64 (requestTimeOut defaults * 3)
       \<and> connectTimeOut c = 30000 * Millisecond
       \<and> connectTimeOut help_defaults = 20000 * Millisecond
       \<and> connectTimeOut c \<noteq> connectTimeOut help_defaults"
    by (simp add: help_defaults_def Millisecond_def)
  with help_matches_other_defaults show ?thesis by simp
qed

lemma timeout_parse: "main_parse sample_lib timeout_args = Inr timeout_config"
  by code_simp

theorem connectTimeOut_default_witness:
  "main_parse sample_lib timeout_args = Inr timeout_config
   \<and> ''-connectTimeOut'' \<notin> set (drop 2 timeout_args)
   \<and> requestTimeOut timeout_config = 500 * Millisecond
   \<and> connectTimeOut timeout_config = 30000 * Millisecond
   \<and> connectTimeOut help_defaults = 20000 * Millisecond
   \<and> connectTimeOut timeout_config \<noteq> connectTimeOut help_defaults"
proof -
  have n: "''-connectTimeOut'' \<notin> set (drop 2 timeout_args)"
    by (simp add: timeout_args_def)
  have r: "requestTimeOut timeout_config = 500 * Millisecond"
    by (simp add: timeout_config_def)
  from connectTimeOut_default [OF timeout_parse n]
  have "connectTimeOut timeout_config = 30000 * Millisecond"
    and "connectTimeOut help_defaults = 20000 * Millisecond"
    and "connectTimeOut timeout_config \<noteq> connectTimeOut help_defaults"
    by blast+
  with timeout_parse n r show ?thesis by blast
qed

text \<open>With no flags at all the connect timeout is 30000 ms, not 20000 ms.\<close>

lemma connectTimeOut_default_not_20000:
  "main_parse sample_lib [''api-tester'', ''http://h''] = Inr (defaults\<lparr>url := ''http://h''\<rparr>)
   \<and> connectTimeOut (defaults\<lparr>url := ''http://h''\<rparr>) = 30000 * Millisecond
   \<and> connectTimeOut (defaults\<lparr>url := ''http://h''\<rparr>) \<noteq> 20000 * Millisecond"
proof -
  have "main_parse sample_lib [''api-tester'', ''http://h''] = Inr (defaults\<lparr>url := ''http://h''\<rparr>)"
    by code_simp
  then show ?thesis
    by (simp add: default_connectTimeOut Millisecond_def)
qed

section \<open>Calls that fail\<close>

lemma reachable_worker_ok:
  assumes "crashed (exec lib c sched (launched asg)) = None"
    and "k < length (workers (exec lib c sched (launched asg)))"
  shows "worker_ok lib c (asg ! k) (workers (exec lib c sched (launched asg)) ! k)"
proof -
  have "run_ok lib c asg (exec lib c sched (launched asg))"
    using launched_run_ok assms(1) by (rule exec_run_ok)
  then show ?thesis using assms(2) by (rule run_ok_nth)
qed

lemma attempts_append: "attempts (xs @ ys) = attempts xs @ attempts ys"
  by (simp add: attempts_def)

lemma attempts_call_effects: "attempts (call_effects lib c tid req i) = [i]"
  by (auto simp: attempts_def call_effects_def iteration_def Let_def split: option.splits)

lemma attempts_calls: "attempts (concat (map (call_effects lib c tid req) is)) = is"
proof (induction "is")
  case Nil
  show ?case by (simp add: attempts_def)
next
  case (Cons i "is")
  then show ?case by (simp add: attempts_append attempts_call_effects)
qed

lemma worker_attempts:
  assumes "worker_ok lib c a w"
  shows "attempts (effects w) = [0..<completed w]"
proof (cases "pc w")
  case Start
  with assms show ?thesis by (simp add: worker_ok_def completed_def attempts_def)
next
  case (Loop req status i)
  with assms show ?thesis by (simp add: worker_ok_def completed_def attempts_calls)
next
  case Exited
  have "attempts [WgDone] = []" by (simp add: attempts_def)
  with Exited assms show ?thesis
    by (auto simp: worker_ok_def completed_def attempts_calls attempts_append split: option.splits)
qed

lemma worker_exited_all:
  "worker_ok lib c a w \<Longrightarrow> pc w = Exited \<Longrightarrow> completed w = nat (numCalls w)"
  by (simp add: completed_def)

lemma loop_step:
  assumes "pc w = Loop req status i" and "int i < numCalls w"
  shows "fetchData_step lib c w =
     (w\<lparr>pc := Loop req (fst (iteration lib c (threadID w) req status i)) (i + 1),
        effects := effects w @ fst (snd (iteration lib c (threadID w) req status i))\<rparr>,
      [fst (snd (snd (iteration lib c (threadID w) req status i)))],
      [snd (snd (snd (iteration lib c (threadID w) req status i)))], None)"
  using assms by (simp add: fetchData_step_def split: prod.splits)

lemma iteration_time: "snd (snd (snd (iteration lib c tid req status i))) = responseTime (Do lib tid i)"
  by (simp add: iteration_def Let_def)

lemma iteration_failed:
  assumes "do_resp (Do lib tid i) = None" and "do_err (Do lib tid i) = Some e"
  shows "iteration lib c tid req status i =
     (status,
      [HttpDo req i, Lock, Print (RequestFailed tid i e (responseTime (Do lib tid i))),
       Append (responseTime (Do lib tid i)), Unlock, Sleep (sleepTime c)],
      RequestFailed tid i e (responseTime (Do lib tid i)),
      responseTime (Do lib tid i))"
  using assms by (simp add: iteration_def Let_def)

lemma sched_step_loop:
  assumes "crashed s = None" and "k < length (workers s)"
    and "pc (workers s ! k) = Loop req status i" and "int i < numCalls (workers s ! k)"
  shows "sched_step lib c s k =
     s\<lparr>workers := (workers s)[k := (workers s ! k)
           \<lparr>pc := Loop req (fst (iteration lib c (threadID (workers s ! k)) req status i)) (i + 1),
            effects := effects (workers s ! k) @
              fst (snd (iteration lib c (threadID (workers s ! k)) req status i))\<rparr>],
       responseTimes := responseTimes s @ [responseTime (Do lib (threadID (workers s ! k)) i)],
       stdout := stdout s @ [fst (snd (snd (iteration lib c (threadID (workers s ! k)) req status i)))],
       crashed := None\<rparr>"
  using assms loop_step [OF assms(3,4), of lib c]
  by (simp add: sched_step_def iteration_time)

text \<open>
  What holds of every call. In every state a run can reach without a panic, every worker
  has attempted the calls \<open>0 .. completed - 1\<close>, each exactly once and in order, and a
  worker that has returned has attempted all of \<open>0 .. numCalls - 1\<close>. A worker about to
  make call \<open>i\<close> appends the measured time of that call to the shared sequence and goes
  on to call \<open>i + 1\<close>, whatever the outcome, and the process does not panic. When \<open>Do\<close>
  returns no response and an error, the step is exactly: one \<open>Do\<close>, then under the lock
  the line "Request failed" with the error and the time and the append of the time, then
  the sleep; the worker stays in the loop at \<open>i + 1\<close>.
\<close>

lemma failed_call_continues:
  assumes run: "s = exec lib c sched (launched asg)" and alive: "crashed s = None"
    and k: "k < length (workers s)" and w: "w = workers s ! k"
  shows "attempts (effects w) = [0..<completed w]
       \<and> (pc w = Exited \<longrightarrow> attempts (effects w) = [0..<nat (numCalls w)])
       \<and> (\<forall>req status i. pc w = Loop req status i \<and> int i < numCalls w \<longrightarrow>
             responseTimes (sched_step lib c s k) =
               responseTimes s @ [responseTime (Do lib (threadID w) i)]
           \<and> (\<exists>status'. pc (workers (sched_step lib c s k) ! k) = Loop req status' (i + 1))
           \<and> crashed (sched_step lib c s k) = None)
       \<and> (\<forall>req status i e. pc w = Loop req status i \<and> int i < numCalls w
             \<and> do_resp (Do lib (threadID w) i) = None
             \<and> do_err (Do lib (threadID w) i) = Some e \<longrightarrow>
             sched_step lib c s k =
               s\<lparr>workers := (workers s)[k := w
                     \<lparr>pc := Loop req status (i + 1),
                      effects := effects w @
                        [HttpDo req i, Lock,
                         Print (RequestFailed (threadID w) i e (responseTime (Do lib (threadID w) i))),
                         Append (responseTime (Do lib (threadID w) i)), Unlock,
                         Sleep (sleepTime c)]\<rparr>],
                 responseTimes := responseTimes s @ [responseTime (Do lib (threadID w) i)],
                 stdout := stdout s @
                   [RequestFailed (threadID w) i e (responseTime (Do lib (threadID w) i))],
                 crashed := None\<rparr>)"
proof -
  from alive k have ok: "worker_ok lib c (asg ! k) w"
    unfolding run w by (rule reachable_worker_ok)
  have a: "attempts (effects w) = [0..<completed w]"
    using ok by (rule worker_attempts)
  have b: "attempts (effects w) = [0..<nat (numCalls w)]" if "pc w = Exited"
    using a worker_exited_all [OF ok that] by simp
  have st: "sched_step lib c s k =
     s\<lparr>workers := (workers s)[k := w
           \<lparr>pc := Loop req (fst (iteration lib c (threadID w) req status i)) (i + 1),
            effects := effects w @ fst (snd (iteration lib c (threadID w) req status i))\<rparr>],
       responseTimes := responseTimes s @ [responseTime (Do lib (threadID w) i)],
       stdout := stdout s @ [fst (snd (snd (iteration lib c (threadID w) req status i)))],
       crashed := None\<rparr>"
    if "pc w = Loop req status i" and "int i < numCalls w" for req status i
    using sched_step_loop [OF alive k, of req status i lib c] that unfolding w by simp
  have c: "responseTimes (sched_step lib c s k) =
               responseTimes s @ [responseTime (Do lib (threadID w) i)]
           \<and> (\<exists>status'. pc (workers (sched_step lib c s k) ! k) = Loop req status' (i + 1))
           \<and> crashed (sched_step lib c s k) = None"
    if "pc w = Loop req status i" and "int i < numCalls w" for req status i
    using st [OF that] k by simp
  have d: "sched_step lib c s k =
               s\<lparr>workers := (workers s)[k := w
                     \<lparr>pc := Loop req status (i + 1),
                      effects := effects w @
                        [HttpDo req i, Lock,
                         Print (RequestFailed (threadID w) i e (responseTime (Do lib (threadID w) i))),
                         Append (responseTime (Do lib (threadID w) i)), Unlock,
                         Sleep (sleepTime c)]\<rparr>],
                 responseTimes := responseTimes s @ [responseTime (Do lib (threadID w) i)],
                 stdout := stdout s @
                   [RequestFailed (threadID w) i e (responseTime (Do lib (threadID w) i))],
                 crashed := None\<rparr>"
    if "pc w = Loop req status i" and "int i < numCalls w"
      and "do_resp (Do lib (threadID w) i) = None" and "do_err (Do lib (threadID w) i) = Some e"
    for req status i e
    using st [OF that(1,2)] iteration_failed [OF that(3,4), of c req status] by simp
  from a b c d show ?thesis by blast
qed

lemma sample_state_facts:
  "crashed sample_state = None"
  "0 < length (workers sample_state)"
  "pc (workers sample_state ! 0) = Loop sample_request ''200 OK'' 1"
  "int 1 < numCalls (workers sample_state ! 0)"
  "threadID (workers sample_state ! 0) = 0"
  "completed (workers sample_state ! 0) = 1"
  by code_simp+

lemma sample_call_refused:
  "do_resp (Do sample_lib 0 1) = None" "do_err (Do sample_lib 0 1) = Some ''connection refused''"
  "responseTime (Do sample_lib 0 1) = Finite 2"
  by (simp_all add: sample_lib_def sample_Do_def)

lemma failed_call_continues_example:
  "sample_state = exec sample_lib sample_config [0, 1, 0] (launched [(0, 2), (1, 1)])
   \<and> crashed sample_state = None \<and> 0 < length (workers sample_state)
   \<and> pc (workers sample_state ! 0) = Loop sample_request ''200 OK'' 1
   \<and> int 1 < numCalls (workers sample_state ! 0)
   \<and> do_resp (Do sample_lib (threadID (workers sample_state ! 0)) 1) = None
   \<and> do_err (Do sample_lib (threadID (workers sample_state ! 0)) 1) = Some ''connection refused''
   \<and> attempts (effects (workers sample_state ! 0)) = [0]
   \<and> responseTimes (sched_step sample_lib sample_config sample_state 0) =
        responseTimes sample_state @ [Finite 2]
   \<and> stdout (sched_step sample_lib sample_config sample_state 0) =
        stdout sample_state @ [RequestFailed 0 1 ''connection refused'' (Finite 2)]"
proof -
  note f = sample_state_facts
  note r = sample_call_refused
  from failed_call_continues [OF sample_state_def f(1) f(2) refl]
  have a: "attempts (effects (workers sample_state ! 0)) = [0..<completed (workers sample_state ! 0)]"
    and d: "\<And>req status i e. pc (workers sample_state ! 0) = Loop req status i
             \<Longrightarrow> int i < numCalls (workers sample_state ! 0)
             \<Longrightarrow> do_resp (Do sample_lib (threadID (workers sample_state ! 0)) i) = None
             \<Longrightarrow> do_err (Do sample_lib (threadID (workers sample_state ! 0)) i) = Some e \<Longrightarrow>
             sched_step sample_lib sample_config sample_state 0 =
               sample_state\<lparr>workers := (workers sample_state)[0 := (workers sample_state ! 0)
                     \<lparr>pc := Loop req status (i + 1),
                      effects := effects (workers sample_state ! 0) @
                        [HttpDo req i, Lock,
                         Print (RequestFailed (threadID (workers sample_state ! 0)) i e
                           (responseTime (Do sample_lib (threadID (workers sample_state ! 0)) i))),
                         Append (responseTime (Do sample_lib (threadID (workers sample_state ! 0)) i)),
                         Unlock, Sleep (sleepTime sample_config)]\<rparr>],
                 responseTimes := responseTimes sample_state @
                   [responseTime (Do sample_lib (threadID (workers sample_state ! 0)) i)],
                 stdout := stdout sample_state @
                   [RequestFailed (threadID (workers sample_state ! 0)) i e
                      (responseTime (Do sample_lib (threadID (workers sample_state ! 0)) i))],
                 crashed := None\<rparr>"
    by blast+
  from a have a': "attempts (effects (workers sample_state ! 0)) = [0]"
    by (simp add: f(6))
  from d [OF f(3) f(4)] r f(5)
  have "sched_step sample_lib sample_config sample_state 0 =
      sample_state\<lparr>workers := (workers sample_state)[0 := (workers sample_state ! 0)
                     \<lparr>pc := Loop sample_request ''200 OK'' (1 + 1),
                      effects := effects (workers sample_state ! 0) @
                        [HttpDo sample_request 1, Lock,
                         Print (RequestFailed 0 1 ''connection refused'' (Finite 2)),
                         Append (Finite 2), Unlock, Sleep (sleepTime sample_config)]\<rparr>],
                 responseTimes := responseTimes sample_state @ [Finite 2],
                 stdout := stdout sample_state @ [RequestFailed 0 1 ''connection refused'' (Finite 2)],
                 crashed := None\<rparr>"
    by simp
  then have "responseTimes (sched_step sample_lib sample_config sample_state 0) =
        responseTimes sample_state @ [Finite 2]"
    and "stdout (sched_step sample_lib sample_config sample_state 0) =
        stdout sample_state @ [RequestFailed 0 1 ''connection refused'' (Finite 2)]"
    by simp_all
  with a' f r sample_state_def show ?thesis by simp
qed

lemma iteration_closed:
  assumes "do_resp (Do lib tid i) = Some resp" and "\<not> keepConnectsOpen c"
    and "close_err resp = None"
  shows "iteration lib c tid req status i =
     (resp_status resp,
      [HttpDo req i, CopyDiscard i, BodyClose i, Lock,
       Print (Success tid i (resp_status resp) (responseTime (Do lib tid i))),
       Append (responseTime (Do lib tid i)), Unlock, Sleep (sleepTime c)],
      Success tid i (resp_status resp) (responseTime (Do lib tid i)),
      responseTime (Do lib tid i))"
  using assms by (simp add: iteration_def Let_def)

text \<open>
  C5 (where the code departs from it). A call that failed but has a response is logged
  as a success. When \<open>Do\<close> returns a response, the body is read and closed, and \<open>err\<close>
  ends up holding the result of \<open>resp.Body.Close()\<close> alone (lines 62-63): an error
  returned by \<open>Do\<close> together with the response, or by the copy of the body, is
  overwritten. With the close succeeding, the step prints the line "Success" with the
  response's status; the time is still appended and the worker goes on to the next call.
\<close>

theorem failed_call_logged_as_success:
  assumes run: "s = exec lib c sched (launched asg)" and alive: "crashed s = None"
    and k: "k < length (workers s)" and w: "w = workers s ! k"
    and pc: "pc w = Loop req status i" and more: "int i < numCalls w"
    and resp: "do_resp (Do lib (threadID w) i) = Some resp"
    and failed: "do_err (Do lib (threadID w) i) = Some e \<or> copy_err resp = Some e"
    and drain: "\<not> keepConnectsOpen c" and closed: "close_err resp = None"
  shows "stdout (sched_step lib c s k) =
           stdout s @ [Success (threadID w) i (resp_status resp)
                         (responseTime (Do lib (threadID w) i))]
       \<and> responseTimes (sched_step lib c s k) =
           responseTimes s @ [responseTime (Do lib (threadID w) i)]
       \<and> pc (workers (sched_step lib c s k) ! k) = Loop req (resp_status resp) (i + 1)
       \<and> crashed (sched_step lib c s k) = None"
proof -
  have "sched_step lib c s k =
     s\<lparr>workers := (workers s)[k := w
           \<lparr>pc := Loop req (fst (iteration lib c (threadID w) req status i)) (i + 1),
            effects := effects w @ fst (snd (iteration lib c (threadID w) req status i))\<rparr>],
       responseTimes := responseTimes s @ [responseTime (Do lib (threadID w) i)],
       stdout := stdout s @ [fst (snd (snd (iteration lib c (threadID w) req status i)))],
       crashed := None\<rparr>"
    using sched_step_loop [OF alive k, of req status i lib c] pc more unfolding w by simp
  with iteration_closed [OF resp drain closed, of req status] k show ?thesis by simp
qed

lemma stalled_state_facts:
  "crashed stalled_state = None"
  "0 < length (workers stalled_state)"
  "pc (workers stalled_state ! 0) = Loop sample_request [] 0"
  "int 0 < numCalls (workers stalled_state ! 0)"
  "threadID (workers stalled_state ! 0) = 0"
  "stdout stalled_state = []"
  "responseTimes stalled_state = []"
  by code_simp+

lemma stalled_call:
  "do_resp (Do stalled_lib 0 0) =
     Some \<lparr>resp_status = ''200 OK'', copy_err = Some ''context deadline exceeded'',
           close_err = None\<rparr>"
  "responseTime (Do stalled_lib 0 0) = Finite 100"
  by (simp_all add: stalled_lib_def stalled_Do_def)

lemma one_call_keep: "\<not> keepConnectsOpen one_call_config"
  by (simp add: one_call_config_def defaults_def Let_def)

theorem failed_call_logged_as_success_witness:
  "stalled_state = exec stalled_lib one_call_config [0] (launched [(0, 1)])
   \<and> crashed stalled_state = None \<and> 0 < length (workers stalled_state)
   \<and> pc (workers stalled_state ! 0) = Loop sample_request [] 0
   \<and> int 0 < numCalls (workers stalled_state ! 0)
   \<and> do_resp (Do stalled_lib (threadID (workers stalled_state ! 0)) 0) =
        Some \<lparr>resp_status = ''200 OK'', copy_err = Some ''context deadline exceeded'',
              close_err = None\<rparr>
   \<and> keepConnectsOpen one_call_config = False
   \<and> stdout (sched_step stalled_lib one_call_config stalled_state 0) =
        [Success 0 0 ''200 OK'' (Finite 100)]
   \<and> responseTimes (sched_step stalled_lib one_call_config stalled_state 0) = [Finite 100]"
proof -
  note f = stalled_state_facts
  let ?resp = "\<lparr>resp_status = ''200 OK'', copy_err = Some ''context deadline exceeded'',
                 close_err = None\<rparr>"
  have r: "do_resp (Do stalled_lib (threadID (workers stalled_state ! 0)) 0) = Some ?resp"
    by (simp add: f(5) stalled_call)
  have e: "do_err (Do stalled_lib (threadID (workers stalled_state ! 0)) 0) =
             Some ''context deadline exceeded''
           \<or> copy_err ?resp = Some ''context deadline exceeded''"
    by simp
  have cl: "close_err ?resp = None" by simp
  from failed_call_logged_as_success
    [OF stalled_state_def f(1) f(2) refl f(3) f(4) r e one_call_keep cl]
  have "stdout (sched_step stalled_lib one_call_config stalled_state 0) =
        [Success 0 0 ''200 OK'' (Finite 100)]"
    and "responseTimes (sched_step stalled_lib one_call_config stalled_state 0) = [Finite 100]"
    by (simp_all add: f stalled_call)
  with f r one_call_keep stalled_state_def show ?thesis by simp
qed

section \<open>Response bodies\<close>

lemma copies_append: "copies (xs @ ys) = copies xs @ copies ys"
  by (simp add: copies_def)

lemma closes_append: "closes (xs @ ys) = closes xs @ closes ys"
  by (simp add: closes_def)

lemma copies_call_effects:
  "copies (call_effects lib c tid req i) =
     (if do_resp (Do lib tid i) \<noteq> None \<and> \<not> keepConnectsOpen c then [i] else [])"
  by (auto simp: copies_def call_effects_def iteration_def Let_def split: option.splits)

lemma closes_call_effects:
  "closes (call_effects lib c tid req i) =
     (if do_resp (Do lib tid i) \<noteq> None \<and> \<not> keepConnectsOpen c then [i] else [])"
  by (auto simp: closes_def call_effects_def iteration_def Let_def split: option.splits)

lemma copies_calls:
  "copies (concat (map (call_effects lib c tid req) is)) =
     filter (\<lambda>i. do_resp (Do lib tid i) \<noteq> None \<and> \<not> keepConnectsOpen c) is"
proof (induction "is")
  case Nil
  show ?case by (simp add: copies_def)
next
  case (Cons i "is")
  then show ?case by (simp add: copies_append copies_call_effects)
qed

lemma closes_calls:
  "closes (concat (map (call_effects lib c tid req) is)) =
     filter (\<lambda>i. do_resp (Do lib tid i) \<noteq> None \<and> \<not> keepConnectsOpen c) is"
proof (induction "is")
  case Nil
  show ?case by (simp add: closes_def)
next
  case (Cons i "is")
  then show ?case by (simp add: closes_append closes_call_effects)
qed

lemma worker_copies:
  assumes "worker_ok lib c a w"
  shows "copies (effects w) =
     filter (\<lambda>i. do_resp (Do lib (threadID w) i) \<noteq> None \<and> \<not> keepConnectsOpen c) [0..<completed w]"
proof (cases "pc w")
  case Start
  with assms show ?thesis by (simp add: worker_ok_def completed_def copies_def)
next
  case (Loop req status i)
  with assms show ?thesis by (simp add: worker_ok_def completed_def copies_calls)
next
  case Exited
  have "copies [WgDone] = []" by (simp add: copies_def)
  with Exited assms show ?thesis
    by (auto simp: worker_ok_def completed_def copies_calls copies_append split: option.splits)
qed

lemma worker_closes:
  assumes "worker_ok lib c a w"
  shows "closes (effects w) =
     filter (\<lambda>i. do_resp (Do lib (threadID w) i) \<noteq> None \<and> \<not> keepConnectsOpen c) [0..<completed w]"
proof (cases "pc w")
  case Start
  with assms show ?thesis by (simp add: worker_ok_def completed_def closes_def)
next
  case (Loop req status i)
  with assms show ?thesis by (simp add: worker_ok_def completed_def closes_calls)
next
  case Exited
  have "closes [WgDone] = []" by (simp add: closes_def)
  with Exited assms show ?thesis
    by (auto simp: worker_ok_def completed_def closes_calls closes_append split: option.splits)
qed

lemma iteration_response:
  assumes "do_resp (Do lib tid i) = Some resp"
  shows "\<exists>line. fst (snd (iteration lib c tid req status i)) =
     [HttpDo req i] @ (if keepConnectsOpen c then [] else [CopyDiscard i, BodyClose i]) @
     [Lock, Print line, Append (responseTime (Do lib tid i)), Unlock, Sleep (sleepTime c)]"
  using assms by (simp add: iteration_def Let_def)

text \<open>
  C7. In every state a run can reach without a panic, the calls whose body a worker has
  copied to \<open>io.Discard\<close> and the calls whose body it has closed are exactly the
  completed calls that had a response, when \<open>keepConnectsOpen\<close> is false, and none at
  all when it is true. In the step for a call with a response the copy and the close
  come right after the \<open>Do\<close>, before the lock, the log line and the append, and so
  before the next call; with \<open>keepConnectsOpen\<close> the body is not touched.
\<close>

theorem body_drained_unless_kept_open:
  assumes run: "s = exec lib c sched (launched asg)" and alive: "crashed s = None"
    and k: "k < length (workers s)" and w: "w = workers s ! k"
  shows "copies (effects w) =
           filter (\<lambda>i. do_resp (Do lib (threadID w) i) \<noteq> None \<and> \<not> keepConnectsOpen c)
             [0..<completed w]
       \<and> closes (effects w) =
           filter (\<lambda>i. do_resp (Do lib (threadID w) i) \<noteq> None \<and> \<not> keepConnectsOpen c)
             [0..<completed w]
       \<and> (\<forall>req status i resp. pc w = Loop req status i \<and> int i < numCalls w
             \<and> do_resp (Do lib (threadID w) i) = Some resp \<longrightarrow>
             (\<exists>line. effects (workers (sched_step lib c s k) ! k) =
                effects w @ [HttpDo req i] @
                (if keepConnectsOpen c then [] else [CopyDiscard i, BodyClose i]) @
                [Lock, Print line, Append (responseTime (Do lib (threadID w) i)), Unlock,
                 Sleep (sleepTime c)]))"
proof -
  from alive k have ok: "worker_ok lib c (asg ! k) w"
    unfolding run w by (rule reachable_worker_ok)
  have "\<exists>line. effects (workers (sched_step lib c s k) ! k) =
                effects w @ [HttpDo req i] @
                (if keepConnectsOpen c then [] else [CopyDiscard i, BodyClose i]) @
                [Lock, Print line, Append (responseTime (Do lib (threadID w) i)), Unlock,
                 Sleep (sleepTime c)]"
    if "pc w = Loop req status i" and "int i < numCalls w"
      and "do_resp (Do lib (threadID w) i) = Some resp" for req status i resp
  proof -
    from iteration_response [OF that(3), of c req status] obtain line
      where "fst (snd (iteration lib c (threadID w) req status i)) =
        [HttpDo req i] @ (if keepConnectsOpen c then [] else [CopyDiscard i, BodyClose i]) @
        [Lock, Print line, Append (responseTime (Do lib (threadID w) i)), Unlock, Sleep (sleepTime c)]"
      by blast
    moreover have "effects (workers (sched_step lib c s k) ! k) =
        effects w @ fst (snd (iteration lib c (threadID w) req status i))"
      using sched_step_loop [OF alive k, of req status i lib c] that(1,2) k unfolding w by simp
    ultimately show ?thesis by (intro exI [of _ line]) simp
  qed
  with worker_copies [OF ok] worker_closes [OF ok] show ?thesis by blast
qed

lemma sample_call_ok:
  "do_resp (Do sample_lib 0 0) = Some \<lparr>resp_status = ''200 OK'', copy_err = None, close_err = None\<rparr>"
  by (simp add: sample_lib_def sample_Do_def)

theorem body_drained_unless_kept_open_witness:
  "sample_state = exec sample_lib sample_config [0, 1, 0] (launched [(0, 2), (1, 1)])
   \<and> crashed sample_state = None \<and> 0 < length (workers sample_state)
   \<and> keepConnectsOpen sample_config = False
   \<and> copies (effects (workers sample_state ! 0)) = [0]
   \<and> closes (effects (workers sample_state ! 0)) = [0]"
proof -
  note f = sample_state_facts
  have keep: "keepConnectsOpen sample_config = False"
    by (simp add: sample_config_def defaults_def Let_def)
  from body_drained_unless_kept_open [OF sample_state_def f(1) f(2) refl]
  have "copies (effects (workers sample_state ! 0)) =
           filter (\<lambda>i. do_resp (Do sample_lib (threadID (workers sample_state ! 0)) i) \<noteq> None
                     \<and> \<not> keepConnectsOpen sample_config)
             [0..<completed (workers sample_state ! 0)]"
    and "closes (effects (workers sample_state ! 0)) =
           filter (\<lambda>i. do_resp (Do sample_lib (threadID (workers sample_state ! 0)) i) \<noteq> None
                     \<and> \<not> keepConnectsOpen sample_config)
             [0..<completed (workers sample_state ! 0)]"
    by blast+
  with f keep sample_call_ok sample_state_def show ?thesis by simp
qed

section \<open>Connection reuse\<close>

lemma template_request:
  assumes "template lib c = Some req"
  shows "req = \<lparr>req_method = ''GET'', req_url = url c,
                 req_header = [(''Connection'', [if reuseConnects c then ''keep-alive'' else ''close''])]\<rparr>"
  using assms
  by (auto simp: template_def NewRequest_def Header_Add_def Let_def split: option.splits)

lemma call_effects_request: "HttpDo r j \<in> set (call_effects lib c tid req i) \<Longrightarrow> r = req"
  by (auto simp: call_effects_def iteration_def Let_def split: option.splits if_splits)

lemma worker_requests:
  assumes "worker_ok lib c a w" and "HttpDo r j \<in> set (effects w)"
  shows "template lib c = Some r"
proof (cases "pc w")
  case Start
  with assms show ?thesis by (simp add: worker_ok_def)
next
  case (Loop req status i)
  with assms show ?thesis by (auto simp: worker_ok_def dest: call_effects_request)
next
  case Exited
  with assms show ?thesis
    by (auto simp: worker_ok_def split: option.splits dest: call_effects_request)
qed

text \<open>
  C8. The client's transport has \<open>DisableKeepAlives\<close> equal to the negation of
  \<open>reuseConnects\<close>. In every state a run can reach without a panic, the request template
  of a worker in its loop, and every request it has passed to \<open>Do\<close>, is the GET request
  for the URL whose only header is \<open>Connection: keep-alive\<close> when \<open>reuseConnects\<close> is true
  and \<open>Connection: close\<close> otherwise.
\<close>

theorem connection_policy:
  assumes start: "main_start lib args = Inr (c, cl, s0)"
    and run: "s = exec lib c sched s0" and alive: "crashed s = None"
    and k: "k < length (workers s)" and w: "w = workers s ! k"
  shows "DisableKeepAlives (Transport cl) = (\<not> reuseConnects c)
       \<and> (\<forall>req status i. pc w = Loop req status i \<longrightarrow>
             req = \<lparr>req_method = ''GET'', req_url = url c,
                    req_header = [(''Connection'',
                                   [if reuseConnects c then ''keep-alive'' else ''close''])]\<rparr>)
       \<and> (\<forall>r i. HttpDo r i \<in> set (effects w) \<longrightarrow>
             r = \<lparr>req_method = ''GET'', req_url = url c,
                  req_header = [(''Connection'',
                                 [if reuseConnects c then ''keep-alive'' else ''close''])]\<rparr>)"
proof -
  from start obtain asg where s0: "s0 = launched asg" and cl: "cl = new_client c"
    by (auto simp: main_start_def Let_def split: sum.splits)
  from alive k have ok: "worker_ok lib c (asg ! k) w"
    unfolding run w s0 by (rule reachable_worker_ok)
  have tr: "DisableKeepAlives (Transport cl) = (\<not> reuseConnects c)"
    by (simp add: cl new_client_def)
  have lp: "req = \<lparr>req_method = ''GET'', req_url = url c,
                    req_header = [(''Connection'',
                                   [if reuseConnects c then ''keep-alive'' else ''close''])]\<rparr>"
    if "pc w = Loop req status i" for req status i
  proof -
    from ok that have "template lib c = Some req" by (simp add: worker_ok_def)
    then show ?thesis by (rule template_request)
  qed
  have sent: "r = \<lparr>req_method = ''GET'', req_url = url c,
                  req_header = [(''Connection'',
                                 [if reuseConnects c then ''keep-alive'' else ''close''])]\<rparr>"
    if "HttpDo r i \<in> set (effects w)" for r i
    using worker_requests [OF ok that] by (rule template_request)
  from tr lp sent show ?thesis by blast
qed

lemma sample_state_sent: "HttpDo sample_request 0 \<in> set (effects (workers sample_state ! 0))"
  by code_simp

theorem connection_policy_witness:
  "main_start sample_lib sample_args =
     Inr (sample_config, new_client sample_config, launched [(0, 2), (1, 1)])
   \<and> sample_state = exec sample_lib sample_config [0, 1, 0] (launched [(0, 2), (1, 1)])
   \<and> crashed sample_state = None \<and> 0 < length (workers sample_state)
   \<and> pc (workers sample_state ! 0) = Loop sample_request ''200 OK'' 1
   \<and> HttpDo sample_request 0 \<in> set (effects (workers sample_state ! 0))
   \<and> reuseConnects sample_config = False
   \<and> DisableKeepAlives (Transport (new_client sample_config)) = True
   \<and> req_header sample_request = [(''Connection'', [''close''])]"
proof -
  note f = sample_state_facts
  have reuse: "reuseConnects sample_config = False"
    by (simp add: sample_config_def defaults_def Let_def)
  from connection_policy [OF sample_start sample_state_def f(1) f(2) refl]
  have "DisableKeepAlives (Transport (new_client sample_config)) = (\<not> reuseConnects sample_config)"
    and "\<And>r i. HttpDo r i \<in> set (effects (workers sample_state ! 0)) \<Longrightarrow>
             r = \<lparr>req_method = ''GET'', req_url = url sample_config,
                  req_header = [(''Connection'',
                     [if reuseConnects sample_config then ''keep-alive'' else ''close''])]\<rparr>"
    by blast+
  from this(1) this(2) [OF sample_state_sent] reuse
  have tr: "DisableKeepAlives (Transport (new_client sample_config)) = True"
    and eq: "sample_request = \<lparr>req_method = ''GET'', req_url = url sample_config,
                  req_header = [(''Connection'', [''close''])]\<rparr>"
    by simp_all
  have "req_header sample_request = [(''Connection'', [''close''])]"
    by (subst eq) simp
  with tr sample_start sample_state_def f sample_state_sent reuse show ?thesis by simp
qed

section \<open>The summary\<close>






end
